theory Spec2Isabelle
  imports Complex_Main "HOL-Library.Multiset" "HOL-Library.Sublist"
    "HOL-Library.Char_ord" "HOL-Library.List_Lexorder"
begin

section \<open>Python values used by the TAO statistics pipeline\<close>

text \<open>
  The pipeline lives in \<^verbatim>\<open>bittensor_stats/tao_stats_visualizer.py\<close> (with USD
  enrichment) and \<^verbatim>\<open>tao_stats_visualizer.py\<close> (without). Python \<^verbatim>\<open>str\<close> is
  \<^typ>\<open>string\<close>, compared lexicographically by character code as Python compares
  strings. A Python \<^verbatim>\<open>float\<close> is modelled by \<^typ>\<open>real\<close>: arithmetic is exact, so
  statements about floats hold up to the rounding of IEEE doubles.
\<close>

type_synonym py_float = real

subsection \<open>Dictionaries\<close>

text \<open>
  A \<^verbatim>\<open>dict\<close> is an association list in insertion order. \<open>dict_get\<close> is the
  lookup behind \<^verbatim>\<open>d[k]\<close> and \<^verbatim>\<open>k in d\<close>: \<open>None\<close> means that the key is absent
  (where \<^verbatim>\<open>d[k]\<close> would raise \<^verbatim>\<open>KeyError\<close>). \<open>dict_set\<close> is \<^verbatim>\<open>d[k] = v\<close>: an
  existing key keeps its position, a new key goes to the end.
\<close>

type_synonym ('k, 'v) dict = "('k \<times> 'v) list"

definition dict_get :: "('k, 'v) dict \<Rightarrow> 'k \<Rightarrow> 'v option" where
  "dict_get d k = map_of d k"

definition dict_keys :: "('k, 'v) dict \<Rightarrow> 'k list" where
  "dict_keys d = map fst d"

definition dict_contains :: "'k \<Rightarrow> ('k, 'v) dict \<Rightarrow> bool" where
  "dict_contains k d = (dict_get d k \<noteq> None)"

fun dict_set :: "'k \<Rightarrow> 'v \<Rightarrow> ('k, 'v) dict \<Rightarrow> ('k, 'v) dict" where
  "dict_set k v [] = [(k, v)]"
| "dict_set k v (p # ps) = (if fst p = k then (k, v) # ps else p # dict_set k v ps)"

text \<open>\<^verbatim>\<open>{**a, **b}\<close>: the items of \<open>a\<close>, then each item of \<open>b\<close> stored in order.\<close>

definition dict_merge :: "('k, 'v) dict \<Rightarrow> ('k, 'v) dict \<Rightarrow> ('k, 'v) dict" where
  "dict_merge a b = fold (\<lambda>(k, v). dict_set k v) b a"

text \<open>\<^verbatim>\<open>dict(zip(keys, values))\<close> and the row-by-row filling of a fresh dict.\<close>

definition dict_of_rows :: "('k \<times> 'v) list \<Rightarrow> ('k, 'v) dict" where
  "dict_of_rows rows = fold (\<lambda>(k, v). dict_set k v) rows []"

section \<open>Nearest-date price resolution\<close>

text \<open>
  \<^verbatim>\<open>
  def get_price_for_date(price_data, date_str):
      if date_str in price_data:
          return price_data[date_str]
      available_dates = sorted(price_data.keys())
      for available_date in available_dates:
          if available_date >= date_str:
              return price_data[available_date]
      if available_dates:
          return price_data[available_dates[-1]]
      return None
  \<close>
  The \<^verbatim>\<open>for\<close> loop returns at the first sorted key that is \<open>\<ge> date_str\<close>, which
  is \<open>find\<close>. Every subscript is on a key of the dict, so \<open>dict_get\<close> never yields
  \<open>None\<close> there (lemma \<open>dict_get_key\<close>).
\<close>

definition get_price_for_date :: "(string, 'v) dict \<Rightarrow> string \<Rightarrow> 'v option" where
  "get_price_for_date price_data date_str =
     (if dict_contains date_str price_data then dict_get price_data date_str
      else
        let available_dates = sort (dict_keys price_data) in
        (case find (\<lambda>available_date. available_date \<ge> date_str) available_dates of
           Some available_date \<Rightarrow> dict_get price_data available_date
         | None \<Rightarrow>
             if available_dates \<noteq> [] then dict_get price_data (last available_dates)
             else None))"

text \<open>
  The same rule written inline in \<^verbatim>\<open>process_data\<close> (lines 305-319), with its
  variable \<^verbatim>\<open>tao_price_usd\<close> that starts as \<^verbatim>\<open>None\<close>:
  \<^verbatim>\<open>
  tao_price_usd = None
  if date_str in price_data:
      tao_price_usd = price_data[date_str]
  else:
      available_dates = sorted(price_data.keys())
      for i, available_date in enumerate(available_dates):
          if available_date >= date_str:
              tao_price_usd = price_data[available_date]
              break
      if tao_price_usd is None and available_dates:
          tao_price_usd = price_data[available_dates[-1]]
  \<close>
\<close>

definition lookup_tao_price_usd :: "(string, 'v) dict \<Rightarrow> string \<Rightarrow> 'v option" where
  "lookup_tao_price_usd price_data date_str =
     (if dict_contains date_str price_data then dict_get price_data date_str
      else
        let available_dates = sort (dict_keys price_data);
            tao_price_usd =
              (case find (\<lambda>available_date. available_date \<ge> date_str) available_dates of
                 Some available_date \<Rightarrow> dict_get price_data available_date
               | None \<Rightarrow> None)
        in if tao_price_usd = None \<and> available_dates \<noteq> []
           then dict_get price_data (last available_dates)
           else tao_price_usd)"

section \<open>Paginated fetch with retry and backoff\<close>

text \<open>
  \<^verbatim>\<open>fetch_all_data\<close> is the same text in both source files. Its effects are the
  HTTP requests and the calls of \<^verbatim>\<open>time.sleep\<close>; the model records both, in order,
  in a trace. The upstream is any deterministic server: it answers the \<open>k\<close>-th request
  of the call (counted from 0), made for page \<open>p\<close>, with \<open>upstream k p\<close>; the query
  parameters \<^verbatim>\<open>frequency\<close> and \<^verbatim>\<open>limit\<close> do not change during a call.
\<close>

datatype event =
    Request nat  \<comment> \<open>\<^verbatim>\<open>requests.get\<close> with \<^verbatim>\<open>params['page']\<close>\<close>
  | Sleep nat    \<comment> \<open>\<^verbatim>\<open>time.sleep\<close>, in seconds\<close>

text \<open>
  The JSON body \<^verbatim>\<open>{data: [...], pagination: {total_pages, total_items}}\<close>. A key
  that is missing is \<open>None\<close>. Bodies of another shape make the source raise
  (\<^verbatim>\<open>TypeError\<close>, \<^verbatim>\<open>AttributeError\<close>) and are not values of these types.
\<close>

record pagination =
  total_pages :: "int option"
  total_items :: "int option"

record 'r body =
  data :: "'r list option"
  pagination :: "pagination option"

datatype 'r response =
    RateLimited          \<comment> \<open>status code 429\<close>
  | RequestFailed        \<comment> \<open>a \<^verbatim>\<open>RequestException\<close>: transport error or \<^verbatim>\<open>raise_for_status\<close>\<close>
  | Ok "'r body"         \<comment> \<open>a successful response and its decoded JSON\<close>

type_synonym 'r upstream = "nat \<Rightarrow> nat \<Rightarrow> 'r response"

text \<open>\<^verbatim>\<open>config.py\<close>: \<^verbatim>\<open>MAX_RETRIES = 3\<close>.\<close>

definition MAX_RETRIES :: nat where
  "MAX_RETRIES = 3"

text \<open>
  \<^verbatim>\<open>pagination = data.get('pagination', {})\<close>,
  \<^verbatim>\<open>total_pages = pagination.get('total_pages', 1)\<close>.
\<close>

definition get_total_pages :: "'r body \<Rightarrow> int" where
  "get_total_pages b =
     (case pagination b of
        None \<Rightarrow> 1
      | Some p \<Rightarrow> (case total_pages p of None \<Rightarrow> 1 | Some t \<Rightarrow> t))"

text \<open>
  How the inner \<^verbatim>\<open>while retry_count < max_retries\<close> loop is left: by
  \<^verbatim>\<open>return all_data\<close>, by \<^verbatim>\<open>break\<close> after a page was appended, or because its
  condition became false. Each carries \<^verbatim>\<open>all_data\<close>.
\<close>

datatype 'r loop_exit = Return "'r list" | Break "'r list" | Exhausted "'r list"

text \<open>
  \<^verbatim>\<open>
  retry_count = 0
  while retry_count < max_retries:
      try:
          response = requests.get(self.base_url, headers=self.headers, params=params)
          if response.status_code == 429:
              wait_time = 5 + (2 ** retry_count)
              time.sleep(wait_time)
              retry_count += 1
              continue
          response.raise_for_status()
          data = response.json()
          if 'data' not in data or not data['data']:
              return all_data
          all_data.extend(data['data'])
          pagination = data.get('pagination', {})
          total_pages = pagination.get('total_pages', 1)
          if page >= total_pages:
              return all_data
          break
      except requests.exceptions.RequestException as e:
          retry_count += 1
          if retry_count < max_retries:
              wait_time = 2 ** retry_count
              time.sleep(wait_time)
          else:
              return all_data
  \<close>
  The arguments are the loop's variables: the number \<open>n\<close> of requests sent so far,
  \<open>retry_count\<close>, \<open>all_data\<close> and the trace. The result also gives the new request
  count and trace.
\<close>

function retry_loop ::
  "'r upstream \<Rightarrow> nat \<Rightarrow> nat \<Rightarrow> nat \<Rightarrow> nat \<Rightarrow> 'r list \<Rightarrow> event list
     \<Rightarrow> 'r loop_exit \<times> nat \<times> event list" where
  "retry_loop upstream max_retries page n retry_count all_data trace =
     (if retry_count < max_retries then
        (case upstream n page of
           RateLimited \<Rightarrow>
             retry_loop upstream max_retries page (n + 1) (retry_count + 1) all_data
               (trace @ [Request page, Sleep (5 + 2 ^ retry_count)])
         | RequestFailed \<Rightarrow>
             if retry_count + 1 < max_retries then
               retry_loop upstream max_retries page (n + 1) (retry_count + 1) all_data
                 (trace @ [Request page, Sleep (2 ^ (retry_count + 1))])
             else (Return all_data, n + 1, trace @ [Request page])
         | Ok b \<Rightarrow>
             (case data b of
                None \<Rightarrow> (Return all_data, n + 1, trace @ [Request page])
              | Some records \<Rightarrow>
                  if records = [] then (Return all_data, n + 1, trace @ [Request page])
                  else if int page \<ge> get_total_pages b
                  then (Return (all_data @ records), n + 1, trace @ [Request page])
                  else (Break (all_data @ records), n + 1, trace @ [Request page])))
      else (Exhausted all_data, n, trace))"
  by pat_completeness auto
termination
  by (relation "measure (\<lambda>(upstream, max_retries, page, n, retry_count, all_data, trace).
        max_retries - retry_count)") auto

declare retry_loop.simps [simp del]

text \<open>
  \<^verbatim>\<open>
  while True:
      params = {'frequency': frequency, 'page': page, 'limit': limit}
      retry_count = 0
      while retry_count < max_retries: ...
      page += 1
      time.sleep(3)
  \<close>
  The outer loop has no bound, so it takes fuel: one unit per page. \<open>None\<close> means that
  the fuel ran out before the source returned.
\<close>

fun page_loop ::
  "nat \<Rightarrow> 'r upstream \<Rightarrow> nat \<Rightarrow> nat \<Rightarrow> nat \<Rightarrow> 'r list \<Rightarrow> event list
     \<Rightarrow> ('r list \<times> event list) option" where
  "page_loop 0 upstream max_retries page n all_data trace = None"
| "page_loop (Suc fuel) upstream max_retries page n all_data trace =
     (case retry_loop upstream max_retries page n 0 all_data trace of
        (Return all_data', n', trace') \<Rightarrow> Some (all_data', trace')
      | (Break all_data', n', trace') \<Rightarrow>
          page_loop fuel upstream max_retries (page + 1) n' all_data' (trace' @ [Sleep 3])
      | (Exhausted all_data', n', trace') \<Rightarrow>
          page_loop fuel upstream max_retries (page + 1) n' all_data' (trace' @ [Sleep 3]))"

text \<open>
  \<^verbatim>\<open>all_data = []\<close>, \<^verbatim>\<open>page = 1\<close>, \<^verbatim>\<open>max_retries = MAX_RETRIES\<close>. The result is the
  returned list and the trace of requests and sleeps.
\<close>

definition fetch_all_data :: "nat \<Rightarrow> 'r upstream \<Rightarrow> ('r list \<times> event list) option" where
  "fetch_all_data fuel upstream = page_loop fuel upstream MAX_RETRIES 1 0 [] []"

section \<open>Price source\<close>

text \<open>
  Exceptions are values: a computation that may raise has type \<open>py_error + 'a\<close>, and
  \<^verbatim>\<open>try: body except Exception as e: handler\<close> is \<open>try_except\<close>.
\<close>

datatype py_error =
    KeyError    \<comment> \<open>a missing dict key or DataFrame column\<close>
  | FeedError   \<comment> \<open>any exception raised while querying the price feed\<close>

definition try_except :: "py_error + 'a \<Rightarrow> (py_error \<Rightarrow> py_error + 'a) \<Rightarrow> py_error + 'a" where
  "try_except body handler = (case body of Inl e \<Rightarrow> handler e | Inr v \<Rightarrow> Inr v)"

text \<open>
  The price feed (\<^verbatim>\<open>yf.Ticker('TAO22974-USD')\<close>) as the source sees it during one
  call. \<open>history_1d\<close> is the \<^verbatim>\<open>Close\<close> column of \<^verbatim>\<open>tao.history(period='1d')\<close>;
  \<open>history_range from to\<close> is \<^verbatim>\<open>tao.history(start, end)\<close> as rows of
  \<^verbatim>\<open>(date_idx.strftime("%Y-%m-%d"), row['Close'])\<close>, the parsing of the two dates by
  \<^verbatim>\<open>strptime\<close> included. Either may raise.
\<close>

record feed =
  history_1d :: "py_error + py_float list"
  history_range :: "string \<Rightarrow> string \<Rightarrow> py_error + (string \<times> py_float) list"

text \<open>
  \<^verbatim>\<open>datetime.now()\<close> during one call: in microseconds, as \<^verbatim>\<open>strftime("%Y-%m-%d")\<close>
  and as \<^verbatim>\<open>strftime("%Y%m%d_%H%M%S")\<close>. The time that passes between two readings of
  the clock within a call is neglected.
\<close>

record clock =
  now :: int
  today :: string
  file_stamp :: string

text \<open>
  \<^verbatim>\<open>
  def fetch_tao_price_data(self):
      try:
          tao = yf.Ticker('TAO22974-USD')
          hist = tao.history(period='1d')
          if len(hist) > 0:
              current_price = hist['Close'].iloc[-1]
              return current_price
          else:
              return 500.0
      except Exception as e:
          return 500.0
  \<close>
\<close>

definition fetch_tao_price_data :: "feed \<Rightarrow> py_error + py_float" where
  "fetch_tao_price_data fd =
     try_except
       (case history_1d fd of
          Inl e \<Rightarrow> Inl e
        | Inr hist \<Rightarrow> if length hist > 0 then Inr (last hist) else Inr 500)
       (\<lambda>e. Inr 500)"

text \<open>
  The fallback block that occurs twice in \<^verbatim>\<open>fetch_historical_tao_prices\<close>:
  \<^verbatim>\<open>
  try:
      current_price = self.fetch_tao_price_data()
      if current_price:
          current_date = datetime.now().strftime("%Y-%m-%d")
          daily_prices[current_date] = current_price     # daily_prices is {} here
          return daily_prices
  except Exception as e:
      print(...)
  return {}
  \<close>
  A float is true when it is not zero.
\<close>

definition current_price_fallback :: "clock \<Rightarrow> feed \<Rightarrow> py_error + (string, py_float) dict" where
  "current_price_fallback clk fd =
     (case try_except
             (case fetch_tao_price_data fd of
                Inl e \<Rightarrow> Inl e
              | Inr current_price \<Rightarrow>
                  if current_price \<noteq> 0
                  then Inr (Some (dict_set (today clk) current_price []))
                  else Inr None)
             (\<lambda>e. Inr None) of
        Inl e \<Rightarrow> Inl e
      | Inr (Some daily_prices) \<Rightarrow> Inr daily_prices
      | Inr None \<Rightarrow> Inr [])"

text \<open>
  \<^verbatim>\<open>
  def fetch_historical_tao_prices(self, from_date=None, to_date=None):
      try:
          if from_date is None: from_date = "2023-03-20"
          if to_date is None: to_date = datetime.now().strftime("%Y-%m-%d")
          ...
          hist = tao.history(start=start_date, end=end_date)
          daily_prices = {}
          if len(hist) > 0:
              for date_idx, row in hist.iterrows():
                  daily_prices[date_idx.strftime("%Y-%m-%d")] = row['Close']
              return daily_prices
          else:
              (fallback block)
      except Exception as e:
          (fallback block)
  \<close>
\<close>

definition fetch_historical_tao_prices ::
  "clock \<Rightarrow> feed \<Rightarrow> string option \<Rightarrow> string option \<Rightarrow> py_error + (string, py_float) dict" where
  "fetch_historical_tao_prices clk fd from_date to_date =
     try_except
       (let from_date' = (case from_date of None \<Rightarrow> ''2023-03-20'' | Some d \<Rightarrow> d);
            to_date' = (case to_date of None \<Rightarrow> today clk | Some d \<Rightarrow> d)
        in case history_range fd from_date' to_date' of
             Inl e \<Rightarrow> Inl e
           | Inr hist \<Rightarrow>
               if length hist > 0 then Inr (dict_of_rows hist)
               else current_price_fallback clk fd)
       (\<lambda>e. current_price_fallback clk fd)"

section \<open>Price cache\<close>

text \<open>
  The working directory: file names with their creation time (\<^verbatim>\<open>os.path.getctime\<close>,
  in microseconds) and their content as rows \<^verbatim>\<open>date,price_usd\<close>; \<open>None\<close> is a file that
  \<^verbatim>\<open>pd.read_csv\<close> or the column access fails on. The order is the one in which
  \<^verbatim>\<open>glob.glob\<close> lists the directory.
\<close>

record price_file =
  ctime :: int
  rows :: "(string \<times> py_float) list option"

type_synonym directory = "(string, price_file) dict"

text \<open>\<^verbatim>\<open>glob.glob("tao_price_data_*.csv")\<close>, each name with its file.\<close>

definition is_price_file_name :: "string \<Rightarrow> bool" where
  "is_price_file_name name =
     (prefix ''tao_price_data_'' name \<and> suffix ''.csv'' name \<and>
      length ''tao_price_data_'' + length ''.csv'' \<le> length name)"

definition glob_price_files :: "directory \<Rightarrow> (string \<times> price_file) list" where
  "glob_price_files dir = filter (\<lambda>(name, f). is_price_file_name name) dir"

text \<open>\<^verbatim>\<open>max(x :: xs, key=key)\<close>: the first element whose key is greatest.\<close>

fun max_by :: "('a \<Rightarrow> int) \<Rightarrow> 'a \<Rightarrow> 'a list \<Rightarrow> 'a" where
  "max_by key best [] = best"
| "max_by key best (x # xs) = (if key x > key best then max_by key x xs else max_by key best xs)"

text \<open>
  \<^verbatim>\<open>
  def load_price_data(self, filename):
      try:
          df = pd.read_csv(filename)
          price_dict = dict(zip(df['date'], df['price_usd']))
          return price_dict
      except Exception as e:
          return {}
  \<close>
\<close>

definition load_price_data :: "price_file \<Rightarrow> (string, py_float) dict" where
  "load_price_data f = (case rows f of None \<Rightarrow> [] | Some rs \<Rightarrow> dict_of_rows rs)"

text \<open>
  \<^verbatim>\<open>
  def save_price_data(self, price_data, filename=None):
      if not price_data:
          return None
      if filename is None:
          timestamp = datetime.now().strftime("%Y%m%d_%H%M%S")
          filename = f"tao_price_data_{timestamp}.csv"
      df = pd.DataFrame([{'date': date, 'price_usd': price}
                         for date, price in sorted(price_data.items())])
      df.to_csv(filename, index=False)
      return filename
  \<close>
  The result is the file name, if any, and the directory after the call. The keys of a
  dict are distinct, so \<^verbatim>\<open>sorted(price_data.items())\<close> sorts by date.
\<close>

definition save_price_data ::
  "clock \<Rightarrow> directory \<Rightarrow> (string, py_float) dict \<Rightarrow> string option \<times> directory" where
  "save_price_data clk dir price_data =
     (if price_data = [] then (None, dir)
      else
        let filename = ''tao_price_data_'' @ file_stamp clk @ ''.csv''
        in (Some filename,
            dict_set filename \<lparr>ctime = now clk, rows = Some (sort_key fst price_data)\<rparr> dir))"

text \<open>One day in microseconds; \<^verbatim>\<open>timedelta.days\<close> is the floor of the difference in days.\<close>

definition day :: int where
  "day = 86400000000"

definition timedelta_days :: "int \<Rightarrow> int" where
  "timedelta_days delta = delta div day"

text \<open>
  \<^verbatim>\<open>
  def get_or_fetch_price_data(self, start_date=None, end_date=None):
      price_files = glob.glob("tao_price_data_*.csv")
      if price_files:
          latest_file = max(price_files, key=os.path.getctime)
          file_date = datetime.fromtimestamp(os.path.getctime(latest_file))
          if (datetime.now() - file_date).days > 1:
              existing_prices = self.load_price_data(latest_file)
              new_prices = self.fetch_historical_tao_prices(start_date, end_date)
              combined_prices = {**existing_prices, **new_prices}
              new_filename = self.save_price_data(combined_prices)
              return combined_prices
          else:
              return self.load_price_data(latest_file)
      else:
          price_data = self.fetch_historical_tao_prices(start_date, end_date)
          if price_data:
              self.save_price_data(price_data)
          return price_data
  \<close>
  The result is the returned dict and the directory after the call.
\<close>

definition get_or_fetch_price_data ::
  "clock \<Rightarrow> feed \<Rightarrow> directory \<Rightarrow> string option \<Rightarrow> string option
     \<Rightarrow> py_error + ((string, py_float) dict \<times> directory)" where
  "get_or_fetch_price_data clk fd dir start_date end_date =
     (case glob_price_files dir of
        first_file # more_files \<Rightarrow>
          let latest_file = max_by (\<lambda>(name, f). ctime f) first_file more_files;
              file_date = ctime (snd latest_file)
          in if timedelta_days (now clk - file_date) > 1 then
               let existing_prices = load_price_data (snd latest_file)
               in (case fetch_historical_tao_prices clk fd start_date end_date of
                     Inl e \<Rightarrow> Inl e
                   | Inr new_prices \<Rightarrow>
                       let combined_prices = dict_merge existing_prices new_prices
                       in Inr (combined_prices, snd (save_price_data clk dir combined_prices)))
             else Inr (load_price_data (snd latest_file), dir)
      | [] \<Rightarrow>
          (case fetch_historical_tao_prices clk fd start_date end_date of
             Inl e \<Rightarrow> Inl e
           | Inr price_data \<Rightarrow>
               if price_data \<noteq> [] then Inr (price_data, snd (save_price_data clk dir price_data))
               else Inr (price_data, dir)))"

section \<open>Normalization of the raw records\<close>

text \<open>
  A raw record of the API after \<^verbatim>\<open>int(entry[...])\<close> has read its integer fields; the
  timestamp stays the ISO-8601 string of the API. Entries with a missing key, a field
  that is no integer or a timestamp that does not parse make the source raise and are
  not values of this type.
\<close>

record raw_record =
  raw_timestamp :: string
  raw_block_number :: int
  issued :: int
  staked :: int
  raw_accounts :: int
  raw_balance_holders :: int

text \<open>
  The dict \<^verbatim>\<open>data_point\<close>, one row of the DataFrame. The four USD keys are set
  together by one \<^verbatim>\<open>data_point.update\<close> or not at all; \<open>None\<close> is a key that is not
  set. \<open>'ts\<close> is the type of \<^verbatim>\<open>pd.Timestamp\<close>, linearly ordered.
\<close>

record 'ts data_point =
  timestamp :: 'ts
  block_number :: int
  issued_tao :: py_float
  staked_tao :: py_float
  circulating_tao :: py_float
  staked_percentage :: py_float
  circulating_percentage :: py_float
  accounts :: int
  balance_holders :: int
  total_market_cap_usd :: "py_float option"
  staked_market_cap_usd :: "py_float option"
  circulating_market_cap_usd :: "py_float option"
  tao_price_usd :: "py_float option"

text \<open>\<^verbatim>\<open>entry['timestamp'].replace('Z', '+00:00')\<close>\<close>

definition replace_Z :: "string \<Rightarrow> string" where
  "replace_Z s = concat (map (\<lambda>c. if c = CHR ''Z'' then ''+00:00'' else [c]) s)"

text \<open>
  The body of the \<^verbatim>\<open>for entry in raw_data\<close> loop of
  \<^verbatim>\<open>bittensor_stats/tao_stats_visualizer.py\<close> (lines 273-329). Two library functions
  are parameters: \<open>to_datetime\<close> is \<^verbatim>\<open>pd.to_datetime\<close> and \<open>iso_date s\<close> is
  \<^verbatim>\<open>datetime.fromisoformat(s).strftime("%Y-%m-%d")\<close>.
  \<^verbatim>\<open>
  issued = int(entry['issued'])
  staked = int(entry['staked'])
  staked_percentage = (staked / issued) * 100 if issued > 0 else 0
  issued_tao = issued / 1e9
  staked_tao = staked / 1e9
  circulating_tao = issued_tao - staked_tao
  data_point = {..., 'circulating_percentage':
                  (circulating_tao / issued_tao) * 100 if issued_tao > 0 else 0, ...}
  if include_usd and price_data is not None:
      timestamp_obj = datetime.fromisoformat(entry['timestamp'].replace('Z', '+00:00'))
      date_str = timestamp_obj.strftime("%Y-%m-%d")
      (nearest-date lookup into tao_price_usd)
      if tao_price_usd is not None:
          data_point.update({'total_market_cap_usd': issued_tao * tao_price_usd,
                             'staked_market_cap_usd': staked_tao * tao_price_usd,
                             'circulating_market_cap_usd': circulating_tao * tao_price_usd,
                             'tao_price_usd': tao_price_usd})
  processed_data.append(data_point)
  \<close>
\<close>

definition process_entry ::
  "(string \<Rightarrow> 'ts) \<Rightarrow> (string \<Rightarrow> string) \<Rightarrow> bool \<Rightarrow> (string, py_float) dict option
     \<Rightarrow> raw_record \<Rightarrow> 'ts data_point" where
  "process_entry to_datetime iso_date include_usd price_data entry =
     (let staked_percentage' =
            (if issued entry > 0 then (real_of_int (staked entry) / real_of_int (issued entry)) * 100
             else 0);
          issued_tao' = real_of_int (issued entry) / 10 ^ 9;
          staked_tao' = real_of_int (staked entry) / 10 ^ 9;
          circulating_tao' = issued_tao' - staked_tao';
          data_point =
            \<lparr>timestamp = to_datetime (raw_timestamp entry),
             block_number = raw_block_number entry,
             issued_tao = issued_tao',
             staked_tao = staked_tao',
             circulating_tao = circulating_tao',
             staked_percentage = staked_percentage',
             circulating_percentage =
               (if issued_tao' > 0 then (circulating_tao' / issued_tao') * 100 else 0),
             accounts = raw_accounts entry,
             balance_holders = raw_balance_holders entry,
             total_market_cap_usd = None,
             staked_market_cap_usd = None,
             circulating_market_cap_usd = None,
             tao_price_usd = None\<rparr>
      in case (if include_usd then price_data else None) of
           None \<Rightarrow> data_point  \<comment> \<open>not (\<^verbatim>\<open>include_usd and price_data is not None\<close>)\<close>
         | Some prices \<Rightarrow>
             let date_str = iso_date (replace_Z (raw_timestamp entry))
             in (case lookup_tao_price_usd prices date_str of
                   None \<Rightarrow> data_point
                 | Some price \<Rightarrow>
                     data_point
                       \<lparr>total_market_cap_usd := Some (issued_tao' * price),
                        staked_market_cap_usd := Some (staked_tao' * price),
                        circulating_market_cap_usd := Some (circulating_tao' * price),
                        tao_price_usd := Some price\<rparr>))"

text \<open>
  \<^verbatim>\<open>
  df = pd.DataFrame(processed_data)
  df = df.sort_values('timestamp')
  return df
  \<close>
  A DataFrame built from the empty list has no column, and \<^verbatim>\<open>sort_values\<close> raises
  \<^verbatim>\<open>KeyError\<close> for the missing column \<^verbatim>\<open>'timestamp'\<close>. pandas does not fix the
  order of rows with equal timestamps; the model keeps them in input order.
\<close>

definition sort_values_timestamp :: "('ts::linorder) data_point list \<Rightarrow> py_error + 'ts data_point list" where
  "sort_values_timestamp processed_data =
     (if processed_data = [] then Inl KeyError else Inr (sort_key timestamp processed_data))"

text \<open>
  \<^verbatim>\<open>
  def process_data(self, raw_data, include_usd=True, price_data=None):
      processed_data = []
      if include_usd and price_data is None:
          price_data = self.get_or_fetch_price_data()
      elif not include_usd:
          price_data = None
      for entry in raw_data: ...
  \<close>
  The result is the rows of the DataFrame in order, and the directory after the call.
\<close>

definition process_data ::
  "(string \<Rightarrow> 'ts::linorder) \<Rightarrow> (string \<Rightarrow> string) \<Rightarrow> clock \<Rightarrow> feed \<Rightarrow> directory
     \<Rightarrow> raw_record list \<Rightarrow> bool \<Rightarrow> (string, py_float) dict option
     \<Rightarrow> py_error + ('ts data_point list \<times> directory)" where
  "process_data to_datetime iso_date clk fd dir raw_data include_usd price_data =
     (case (if include_usd \<and> price_data = None then
              (case get_or_fetch_price_data clk fd dir None None of
                 Inl e \<Rightarrow> Inl e
               | Inr (fetched, dir') \<Rightarrow> Inr (Some fetched, dir'))
            else if \<not> include_usd then Inr (None, dir)
            else Inr (price_data, dir)) of
        Inl e \<Rightarrow> Inl e
      | Inr (price_data', dir') \<Rightarrow>
          (case sort_values_timestamp
                  (map (process_entry to_datetime iso_date include_usd price_data') raw_data) of
             Inl e \<Rightarrow> Inl e
           | Inr df \<Rightarrow> Inr (df, dir')))"

text \<open>
  \<^verbatim>\<open>process_data(self, raw_data)\<close> of \<^verbatim>\<open>tao_stats_visualizer.py\<close>: the same
  conversion without the circulating and USD columns.
\<close>

record 'ts plain_point =
  p_timestamp :: 'ts
  p_block_number :: int
  p_issued_tao :: py_float
  p_staked_tao :: py_float
  p_staked_percentage :: py_float
  p_accounts :: int
  p_balance_holders :: int

definition process_entry_plain :: "(string \<Rightarrow> 'ts) \<Rightarrow> raw_record \<Rightarrow> 'ts plain_point" where
  "process_entry_plain to_datetime entry =
     \<lparr>p_timestamp = to_datetime (raw_timestamp entry),
      p_block_number = raw_block_number entry,
      p_issued_tao = real_of_int (issued entry) / 10 ^ 9,
      p_staked_tao = real_of_int (staked entry) / 10 ^ 9,
      p_staked_percentage =
        (if issued entry > 0 then (real_of_int (staked entry) / real_of_int (issued entry)) * 100
         else 0),
      p_accounts = raw_accounts entry,
      p_balance_holders = raw_balance_holders entry\<rparr>"

definition process_data_plain ::
  "(string \<Rightarrow> 'ts::linorder) \<Rightarrow> raw_record list \<Rightarrow> py_error + 'ts plain_point list" where
  "process_data_plain to_datetime raw_data =
     (let processed_data = map (process_entry_plain to_datetime) raw_data
      in if processed_data = [] then Inl KeyError else Inr (sort_key p_timestamp processed_data))"

section \<open>Example inputs\<close>

text \<open>
  Mock upstreams with numbers as records. \<open>three_pages\<close> is a history of three
  non-empty pages, and nothing on later pages.
\<close>

definition three_pages :: "nat \<Rightarrow> nat list" where
  "three_pages p = (if p = 1 then [11, 12] else if p = 2 then [21] else if p = 3 then [31, 32] else [])"

definition upstream_three_pages :: "nat upstream" where
  "upstream_three_pages k p =
     Ok \<lparr>data = Some (three_pages p),
         pagination = Some \<lparr>total_pages = Some 3, total_items = Some 5\<rparr>\<rparr>"

text \<open>The same history, served without the \<^verbatim>\<open>pagination\<close> object.\<close>

definition upstream_no_pagination :: "nat upstream" where
  "upstream_no_pagination k p = Ok \<lparr>data = Some (three_pages p), pagination = None\<rparr>"

text \<open>Status 429 for the first two requests, then the single page.\<close>

definition upstream_429_twice :: "nat upstream" where
  "upstream_429_twice k p =
     (if k < 2 then RateLimited
      else Ok \<lparr>data = Some [5],
               pagination = Some \<lparr>total_pages = Some 1, total_items = Some 1\<rparr>\<rparr>)"

text \<open>A transport error for the first request, then the single page.\<close>

definition upstream_fail_once :: "nat upstream" where
  "upstream_fail_once k p =
     (if k < 1 then RequestFailed
      else Ok \<lparr>data = Some [5],
               pagination = Some \<lparr>total_pages = Some 1, total_items = Some 1\<rparr>\<rparr>)"

text \<open>Page 1 always answers 429; page 2 is the last page of two.\<close>

definition upstream_page1_limited :: "nat upstream" where
  "upstream_page1_limited k p =
     (if p = 1 then RateLimited
      else Ok \<lparr>data = Some [7],
               pagination = Some \<lparr>total_pages = Some 2, total_items = Some 2\<rparr>\<rparr>)"

text \<open>Page 1 always fails with a transport error.\<close>

definition upstream_page1_failing :: "nat upstream" where
  "upstream_page1_failing k p =
     (if p = 1 then RequestFailed
      else Ok \<lparr>data = Some [7],
               pagination = Some \<lparr>total_pages = Some 2, total_items = Some 2\<rparr>\<rparr>)"

text \<open>
  Clocks and feeds. \<open>clock_ex\<close> is three days after time 0, \<open>clock_1d\<close> one day and
  \<open>clock_36h\<close> 36 hours after it. \<open>feed_ok\<close> has a two-day history, \<open>feed_empty\<close> has none but knows the
  current price, \<open>feed_down\<close> raises on every query, and \<open>feed_zero\<close> has no history
  and reports a \<^verbatim>\<open>Close\<close> of \<open>0.0\<close>.
\<close>

definition clock_ex :: clock where
  "clock_ex = \<lparr>now = 3 * day, today = ''2024-01-04'', file_stamp = ''20240104_000000''\<rparr>"

definition clock_1d :: clock where
  "clock_1d = \<lparr>now = day, today = ''2024-01-02'', file_stamp = ''20240102_000000''\<rparr>"

definition clock_36h :: clock where
  "clock_36h = \<lparr>now = day + day div 2, today = ''2024-01-02'', file_stamp = ''20240102_120000''\<rparr>"

definition feed_ok :: feed where
  "feed_ok = \<lparr>history_1d = Inr [107],
              history_range = (\<lambda>from_date to_date. Inr [(''2024-01-01'', 105), (''2024-01-02'', 107)])\<rparr>"

definition feed_empty :: feed where
  "feed_empty = \<lparr>history_1d = Inr [107], history_range = (\<lambda>from_date to_date. Inr [])\<rparr>"

definition feed_down :: feed where
  "feed_down = \<lparr>history_1d = Inl FeedError, history_range = (\<lambda>from_date to_date. Inl FeedError)\<rparr>"

definition feed_zero :: feed where
  "feed_zero = \<lparr>history_1d = Inr [0], history_range = (\<lambda>from_date to_date. Inr [])\<rparr>"

text \<open>
  Directories: one snapshot created at time 0 that holds the price 100 for 2024-01-01,
  and one snapshot created at time 0 that cannot be read.
\<close>

definition dir_snapshot :: directory where
  "dir_snapshot =
     [(''tao_price_data_20240101_000000.csv'', \<lparr>ctime = 0, rows = Some [(''2024-01-01'', 100)]\<rparr>)]"

definition dir_unreadable :: directory where
  "dir_unreadable = [(''tao_price_data_20240101_000000.csv'', \<lparr>ctime = 0, rows = None\<rparr>)]"

text \<open>
  Raw records and a price map. The timestamps of the API have the fixed form
  \<^verbatim>\<open>YYYY-MM-DDTHH:MM:SSZ\<close>: for these, the instant is determined by the string, the
  strings are ordered as the instants are, and the calendar date is the first ten
  characters. \<open>to_datetime_ex\<close> and \<open>iso_date_ex\<close> stand for the two library functions
  on such timestamps.
\<close>

definition to_datetime_ex :: "string \<Rightarrow> string" where
  "to_datetime_ex s = s"

definition iso_date_ex :: "string \<Rightarrow> string" where
  "iso_date_ex s = take 10 s"

definition entry_a :: raw_record where
  "entry_a = \<lparr>raw_timestamp = ''2024-01-03T00:00:00Z'', raw_block_number = 2000,
              issued = 8000000000, staked = 6000000000,
              raw_accounts = 10, raw_balance_holders = 7\<rparr>"

definition entry_b :: raw_record where
  "entry_b = \<lparr>raw_timestamp = ''2024-01-01T00:00:00Z'', raw_block_number = 1000,
              issued = 4000000000, staked = 1000000000,
              raw_accounts = 8, raw_balance_holders = 5\<rparr>"

definition prices_ex :: "(string, py_float) dict" where
  "prices_ex = [(''2024-01-01'', 100), (''2024-01-05'', 110)]"

section \<open>Facts about dictionaries\<close>

lemma dict_get_key: "k \<in> set (dict_keys d) \<Longrightarrow> dict_get d k \<noteq> None"
  by (simp add: dict_get_def dict_keys_def map_of_eq_None_iff)

lemma dict_contains_iff: "dict_contains k d \<longleftrightarrow> k \<in> set (dict_keys d)"
  by (simp add: dict_contains_def dict_get_def dict_keys_def map_of_eq_None_iff)

lemma dict_get_set: "dict_get (dict_set k v d) k' = (if k' = k then Some v else dict_get d k')"
  by (induction d) (auto simp: dict_get_def)

lemma dict_keys_set:
  "set (dict_keys (dict_set k v d)) = insert k (set (dict_keys d))"
  by (induction d) (auto simp: dict_keys_def)

lemma distinct_dict_set:
  "distinct (dict_keys d) \<Longrightarrow> distinct (dict_keys (dict_set k v d))"
proof (induction d)
  case Nil
  then show ?case by (simp add: dict_keys_def)
next
  case (Cons p ps)
  have "set (map fst (dict_set k v ps)) = insert k (set (map fst ps))"
    using dict_keys_set [of k v ps] by (simp add: dict_keys_def)
  with Cons show ?case by (auto simp: dict_keys_def)
qed

section \<open>Facts about the nearest-date rule\<close>

lemma find_sorted_least:
  assumes "sorted xs" "k \<in> set xs" "P k" "\<forall>k' \<in> set xs. P k' \<longrightarrow> k \<le> k'"
  shows "find P xs = Some k"
  using assms
proof (induction xs)
  case Nil
  then show ?case by simp
next
  case (Cons x xs)
  show ?case
  proof (cases "P x")
    case True
    with Cons.prems have "k \<le> x" by simp
    moreover from Cons.prems have "x \<le> k" by auto
    ultimately show ?thesis using True by simp
  next
    case False
    with Cons.prems have "k \<in> set xs" by auto
    with Cons False show ?thesis by simp
  qed
qed

lemma last_sorted_greatest:
  assumes "sorted xs" "k \<in> set xs" "\<forall>k' \<in> set xs. k' \<le> k"
  shows "last xs = k"
proof -
  from assms(2) have ne: "xs \<noteq> []" by auto
  then have "last xs \<in> set xs" by simp
  with assms(3) have "last xs \<le> k" by blast
  moreover have "k \<le> last xs"
    using assms(1,2) ne by (induction xs) (auto split: if_splits)
  ultimately show ?thesis by simp
qed

lemma find_Some_mem: "find P xs = Some a \<Longrightarrow> a \<in> set xs \<and> P a"
  by (induction xs) (auto split: if_splits)

lemma find_None_all: "find P xs = None \<longleftrightarrow> (\<forall>x \<in> set xs. \<not> P x)"
  by (induction xs) auto

lemma lookup_tao_price_usd_eq:
  "lookup_tao_price_usd price_data date_str = get_price_for_date price_data date_str"
proof (cases "find (\<lambda>a. a \<ge> date_str) (sort (dict_keys price_data))")
  case None
  then show ?thesis
    by (simp add: lookup_tao_price_usd_def get_price_for_date_def Let_def)
next
  case (Some a)
  then have "a \<in> set (sort (dict_keys price_data))"
    by (rule find_Some_mem [THEN conjunct1])
  then have "dict_get price_data a \<noteq> None"
    by (simp add: dict_get_key)
  with Some show ?thesis
    by (auto simp: lookup_tao_price_usd_def get_price_for_date_def Let_def)
qed

section \<open>Facts about the retry loop and the page loop\<close>

lemma retry_loop_exhausted:
  "\<not> retry_count < max_retries \<Longrightarrow>
     retry_loop upstream max_retries page n retry_count all_data trace = (Exhausted all_data, n, trace)"
  by (simp add: retry_loop.simps)

lemma retry_loop_rate_limited:
  "retry_count < max_retries \<Longrightarrow> upstream n page = RateLimited \<Longrightarrow>
     retry_loop upstream max_retries page n retry_count all_data trace =
     retry_loop upstream max_retries page (n + 1) (retry_count + 1) all_data
       (trace @ [Request page, Sleep (5 + 2 ^ retry_count)])"
  by (subst retry_loop.simps) simp

lemma retry_loop_failed_retry:
  "retry_count + 1 < max_retries \<Longrightarrow> upstream n page = RequestFailed \<Longrightarrow>
     retry_loop upstream max_retries page n retry_count all_data trace =
     retry_loop upstream max_retries page (n + 1) (retry_count + 1) all_data
       (trace @ [Request page, Sleep (2 ^ (retry_count + 1))])"
  by (subst retry_loop.simps) simp

lemma retry_loop_failed_last:
  "retry_count < max_retries \<Longrightarrow> \<not> retry_count + 1 < max_retries \<Longrightarrow>
   upstream n page = RequestFailed \<Longrightarrow>
     retry_loop upstream max_retries page n retry_count all_data trace =
     (Return all_data, n + 1, trace @ [Request page])"
  by (subst retry_loop.simps) simp

lemma retry_loop_no_data:
  "retry_count < max_retries \<Longrightarrow> upstream n page = Ok b \<Longrightarrow>
   data b = None \<or> data b = Some [] \<Longrightarrow>
     retry_loop upstream max_retries page n retry_count all_data trace =
     (Return all_data, n + 1, trace @ [Request page])"
  by (subst retry_loop.simps) auto

lemma retry_loop_last_page:
  "retry_count < max_retries \<Longrightarrow> upstream n page = Ok b \<Longrightarrow>
   data b = Some records \<Longrightarrow> records \<noteq> [] \<Longrightarrow> int page \<ge> get_total_pages b \<Longrightarrow>
     retry_loop upstream max_retries page n retry_count all_data trace =
     (Return (all_data @ records), n + 1, trace @ [Request page])"
  by (subst retry_loop.simps) simp

lemma retry_loop_more_pages:
  "retry_count < max_retries \<Longrightarrow> upstream n page = Ok b \<Longrightarrow>
   data b = Some records \<Longrightarrow> records \<noteq> [] \<Longrightarrow> int page < get_total_pages b \<Longrightarrow>
     retry_loop upstream max_retries page n retry_count all_data trace =
     (Break (all_data @ records), n + 1, trace @ [Request page])"
  by (subst retry_loop.simps) simp

lemma rate_limited_run:
  "retry_count + j \<le> max_retries \<Longrightarrow> \<forall>i<j. upstream (n + i) page = RateLimited \<Longrightarrow>
     retry_loop upstream max_retries page n retry_count all_data trace =
     retry_loop upstream max_retries page (n + j) (retry_count + j) all_data
       (trace @ concat (map (\<lambda>i. [Request page, Sleep (5 + 2 ^ (retry_count + i))]) [0..<j]))"
proof (induction j)
  case 0
  then show ?case by simp
next
  case (Suc j)
  then have "retry_loop upstream max_retries page n retry_count all_data trace =
     retry_loop upstream max_retries page (n + j) (retry_count + j) all_data
       (trace @ concat (map (\<lambda>i. [Request page, Sleep (5 + 2 ^ (retry_count + i))]) [0..<j]))"
    by simp
  also have "\<dots> = retry_loop upstream max_retries page (n + j + 1) (retry_count + j + 1) all_data
       ((trace @ concat (map (\<lambda>i. [Request page, Sleep (5 + 2 ^ (retry_count + i))]) [0..<j]))
          @ [Request page, Sleep (5 + 2 ^ (retry_count + j))])"
    using Suc.prems by (intro retry_loop_rate_limited) auto
  finally show ?case by simp
qed

lemma request_failed_run:
  "retry_count + j < max_retries \<Longrightarrow> \<forall>i<j. upstream (n + i) page = RequestFailed \<Longrightarrow>
     retry_loop upstream max_retries page n retry_count all_data trace =
     retry_loop upstream max_retries page (n + j) (retry_count + j) all_data
       (trace @ concat (map (\<lambda>i. [Request page, Sleep (2 ^ (retry_count + i + 1))]) [0..<j]))"
proof (induction j)
  case 0
  then show ?case by simp
next
  case (Suc j)
  then have "retry_loop upstream max_retries page n retry_count all_data trace =
     retry_loop upstream max_retries page (n + j) (retry_count + j) all_data
       (trace @ concat (map (\<lambda>i. [Request page, Sleep (2 ^ (retry_count + i + 1))]) [0..<j]))"
    by simp
  also have "\<dots> = retry_loop upstream max_retries page (n + j + 1) (retry_count + j + 1) all_data
       ((trace @ concat (map (\<lambda>i. [Request page, Sleep (2 ^ (retry_count + i + 1))]) [0..<j]))
          @ [Request page, Sleep (2 ^ (retry_count + j + 1))])"
    using Suc.prems by (intro retry_loop_failed_retry) auto
  finally show ?case by simp
qed

lemma retry_loop_trace:
  "retry_loop upstream max_retries page n retry_count all_data trace = (ex, n', trace') \<Longrightarrow>
     \<exists>ev. trace' = trace @ ev \<and> (\<forall>e \<in> set ev. e = Request page \<or> (\<exists>s. e = Sleep s))"
proof (induction upstream max_retries page n retry_count all_data trace
    rule: retry_loop.induct)
  case (1 upstream max_retries page n retry_count all_data trace)
  show ?case
  proof (cases "retry_count < max_retries")
    case False
    with "1.prems" show ?thesis by (simp add: retry_loop_exhausted)
  next
    case lt: True
    show ?thesis
    proof (cases "upstream n page")
      case RateLimited
      with lt "1.prems" have "retry_loop upstream max_retries page (n + 1) (retry_count + 1)
          all_data (trace @ [Request page, Sleep (5 + 2 ^ retry_count)]) = (ex, n', trace')"
        by (simp add: retry_loop_rate_limited)
      from "1.IH"(1) [OF lt RateLimited this] show ?thesis by auto
    next
      case RequestFailed
      show ?thesis
      proof (cases "retry_count + 1 < max_retries")
        case True
        with RequestFailed "1.prems" have "retry_loop upstream max_retries page (n + 1)
            (retry_count + 1) all_data (trace @ [Request page, Sleep (2 ^ (retry_count + 1))])
            = (ex, n', trace')"
          by (simp add: retry_loop_failed_retry)
        from "1.IH"(2) [OF lt RequestFailed True this] show ?thesis by auto
      next
        case False
        with lt RequestFailed "1.prems" show ?thesis
          by (auto simp: retry_loop_failed_last)
      qed
    next
      case (Ok b)
      with lt "1.prems" show ?thesis
        by (subst (asm) retry_loop.simps) (auto split: option.splits if_splits)
    qed
  qed
qed

lemma page_loop_requests:
  "page_loop fuel upstream max_retries page n all_data trace = Some (result, trace') \<Longrightarrow>
     Request p \<in> set trace' \<Longrightarrow> Request p \<in> set trace \<or> page \<le> p"
proof (induction fuel arbitrary: page n all_data trace)
  case 0
  then show ?case by simp
next
  case (Suc fuel)
  obtain ex n1 trace1 where r: "retry_loop upstream max_retries page n 0 all_data trace = (ex, n1, trace1)"
    by (metis prod_cases3)
  from retry_loop_trace [OF r] obtain ev where ev: "trace1 = trace @ ev"
    "\<forall>e \<in> set ev. e = Request page \<or> (\<exists>s. e = Sleep s)" by blast
  show ?case
  proof (cases ex)
    case (Return a)
    with Suc.prems r ev show ?thesis by auto
  next
    case (Break a)
    with Suc.prems r have "page_loop fuel upstream max_retries (page + 1) n1 a (trace1 @ [Sleep 3])
        = Some (result, trace')" by simp
    from Suc.IH [OF this Suc.prems(2)] ev show ?thesis by auto
  next
    case (Exhausted a)
    with Suc.prems r have "page_loop fuel upstream max_retries (page + 1) n1 a (trace1 @ [Sleep 3])
        = Some (result, trace')" by simp
    from Suc.IH [OF this Suc.prems(2)] ev show ?thesis by auto
  qed
qed

lemma paging_all_pages:
  assumes mr: "0 < max_retries"
    and ok: "\<forall>k p. page \<le> p \<and> p \<le> N \<longrightarrow>
          (\<exists>b. upstream k p = Ok b \<and> data b = Some (pages p) \<and> get_total_pages b = int N)"
    and ne: "\<forall>p. page \<le> p \<and> p \<le> N \<longrightarrow> pages p \<noteq> []"
    and le: "page \<le> N" and fuel: "N - page < fuel"
  shows "page_loop fuel upstream max_retries page n all_data trace =
           Some (all_data @ concat (map pages [page..<Suc N]),
                 trace @ concat (map (\<lambda>p. [Request p, Sleep 3]) [page..<N]) @ [Request N])"
  using ok ne le fuel
proof (induction fuel arbitrary: page n all_data trace)
  case 0
  then show ?case by simp
next
  case (Suc fuel)
  from Suc.prems(1,3) obtain b where b: "upstream n page = Ok b" "data b = Some (pages page)"
    "get_total_pages b = int N" by blast
  from Suc.prems(2,3) have pne: "pages page \<noteq> []" by simp
  show ?case
  proof (cases "page = N")
    case True
    have "retry_loop upstream max_retries page n 0 all_data trace =
        (Return (all_data @ pages page), n + 1, trace @ [Request page])"
      using mr b pne True by (intro retry_loop_last_page) auto
    with True show ?thesis by simp
  next
    case False
    with Suc.prems(3) have lt: "page < N" by simp
    have r: "retry_loop upstream max_retries page n 0 all_data trace =
        (Break (all_data @ pages page), n + 1, trace @ [Request page])"
      using mr b pne lt by (intro retry_loop_more_pages) auto
    have "page_loop fuel upstream max_retries (page + 1) (n + 1) (all_data @ pages page)
            ((trace @ [Request page]) @ [Sleep 3]) =
          Some ((all_data @ pages page) @ concat (map pages [page + 1..<Suc N]),
                ((trace @ [Request page]) @ [Sleep 3]) @
                  concat (map (\<lambda>p. [Request p, Sleep 3]) [page + 1..<N]) @ [Request N])"
      using Suc.prems lt by (intro Suc.IH) auto
    moreover have "[page..<Suc N] = page # [page + 1..<Suc N]"
      using lt by (simp add: upt_conv_Cons)
    moreover have "[page..<N] = page # [page + 1..<N]"
      using lt by (simp add: upt_conv_Cons)
    ultimately show ?thesis using r by simp
  qed
qed

lemma rate_limited_forever:
  "\<forall>k p. upstream k p = RateLimited \<Longrightarrow>
     page_loop fuel upstream max_retries page n all_data trace = None"
proof (induction fuel arbitrary: page n all_data trace)
  case 0
  then show ?case by simp
next
  case (Suc fuel)
  have "retry_loop upstream max_retries page n 0 all_data trace =
     retry_loop upstream max_retries page (n + max_retries) (0 + max_retries) all_data
       (trace @ concat (map (\<lambda>i. [Request page, Sleep (5 + 2 ^ (0 + i))]) [0..<max_retries]))"
    using Suc.prems by (intro rate_limited_run) auto
  also have "\<dots> = (Exhausted all_data, n + max_retries,
       trace @ concat (map (\<lambda>i. [Request page, Sleep (5 + 2 ^ (0 + i))]) [0..<max_retries]))"
    by (simp add: retry_loop_exhausted)
  finally have r: "retry_loop upstream max_retries page n 0 all_data trace =
      (Exhausted all_data, n + max_retries,
       trace @ concat (map (\<lambda>i. [Request page, Sleep (5 + 2 ^ (0 + i))]) [0..<max_retries]))" .
  show ?case by (simp only: page_loop.simps r prod.case loop_exit.case Suc.IH [OF Suc.prems])
qed

lemma rate_limit_exhaustion_continues:
  assumes "\<forall>i<max_retries. upstream (n + i) page = RateLimited"
  shows "page_loop (Suc fuel) upstream max_retries page n all_data trace =
         page_loop fuel upstream max_retries (page + 1) (n + max_retries) all_data
           (trace @ concat (map (\<lambda>i. [Request page, Sleep (5 + 2 ^ i)]) [0..<max_retries])
              @ [Sleep 3])"
proof -
  have "retry_loop upstream max_retries page n 0 all_data trace =
     retry_loop upstream max_retries page (n + max_retries) (0 + max_retries) all_data
       (trace @ concat (map (\<lambda>i. [Request page, Sleep (5 + 2 ^ (0 + i))]) [0..<max_retries]))"
    using assms by (intro rate_limited_run) auto
  also have "\<dots> = (Exhausted all_data, n + max_retries,
       trace @ concat (map (\<lambda>i. [Request page, Sleep (5 + 2 ^ (0 + i))]) [0..<max_retries]))"
    by (simp add: retry_loop_exhausted)
  finally show ?thesis by simp
qed

lemma error_exhaustion_returns_accumulated:
  assumes "0 < max_retries" "\<forall>i<max_retries. upstream (n + i) page = RequestFailed"
  shows "page_loop (Suc fuel) upstream max_retries page n all_data trace =
         Some (all_data,
           trace @ concat (map (\<lambda>i. [Request page, Sleep (2 ^ (i + 1))]) [0..<max_retries - 1])
             @ [Request page])"
proof -
  let ?j = "max_retries - 1"
  have "retry_loop upstream max_retries page n 0 all_data trace =
     retry_loop upstream max_retries page (n + ?j) (0 + ?j) all_data
       (trace @ concat (map (\<lambda>i. [Request page, Sleep (2 ^ (0 + i + 1))]) [0..<?j]))"
    using assms by (intro request_failed_run) auto
  also have "\<dots> = (Return all_data, n + ?j + 1,
       (trace @ concat (map (\<lambda>i. [Request page, Sleep (2 ^ (0 + i + 1))]) [0..<?j]))
         @ [Request page])"
  proof (intro retry_loop_failed_last)
    from assms(1) have "?j < max_retries" by simp
    with assms(2) show "upstream (n + ?j) page = RequestFailed" by blast
  qed (use assms(1) in auto)
  finally show ?thesis by simp
qed

lemma fetch_429_twice_then_success:
  "fetch_all_data 1 upstream_429_twice =
     Some ([5], [Request 1, Sleep 6, Request 1, Sleep 7, Request 1])"
  by (simp add: fetch_all_data_def MAX_RETRIES_def upstream_429_twice_def retry_loop.simps
      get_total_pages_def)

lemma error_exhaustion_returns:
  "fetch_all_data 2 upstream_page1_failing =
     Some ([], [Request 1, Sleep 2, Request 1, Sleep 4, Request 1])"
  by (simp add: fetch_all_data_def MAX_RETRIES_def upstream_page1_failing_def retry_loop.simps
      get_total_pages_def numeral_2_eq_2)

lemma fetch_no_pagination:
  "fetch_all_data 1 upstream_no_pagination = Some ([11, 12], [Request 1])"
  by (simp add: fetch_all_data_def MAX_RETRIES_def upstream_no_pagination_def three_pages_def
      retry_loop.simps get_total_pages_def)

section \<open>Facts about the price source and the merge of dicts\<close>

lemma fetch_tao_price_data_cases:
  "fetch_tao_price_data fd =
     Inr (case history_1d fd of Inl e \<Rightarrow> 500 | Inr hist \<Rightarrow> if hist = [] then 500 else last hist)"
  by (simp add: fetch_tao_price_data_def try_except_def split: sum.splits)

lemma current_price_fallback_cases:
  "fetch_tao_price_data fd = Inr p \<Longrightarrow>
     current_price_fallback clk fd = Inr (if p \<noteq> 0 then [(today clk, p)] else [])"
  by (simp add: current_price_fallback_def try_except_def)

lemma fetch_historical_cases:
  "fetch_historical_tao_prices clk fd from_date to_date =
     (case history_range fd (case from_date of None \<Rightarrow> ''2023-03-20'' | Some d \<Rightarrow> d)
             (case to_date of None \<Rightarrow> today clk | Some d \<Rightarrow> d) of
        Inl e \<Rightarrow> current_price_fallback clk fd
      | Inr hist \<Rightarrow> if hist = [] then current_price_fallback clk fd else Inr (dict_of_rows hist))"
proof -
  obtain p where p: "fetch_tao_price_data fd = Inr p"
    by (simp add: fetch_tao_price_data_cases)
  then obtain d where d: "current_price_fallback clk fd = Inr d"
    by (simp add: current_price_fallback_cases)
  show ?thesis
    by (simp add: fetch_historical_tao_prices_def try_except_def Let_def d split: sum.splits)
qed

lemma dict_get_Nil: "dict_get [] k = None"
  by (simp add: dict_get_def)

lemma dict_keys_Nil: "dict_keys [] = []"
  by (simp add: dict_keys_def)

lemma dict_keys_Cons: "dict_keys (p # ps) = fst p # dict_keys ps"
  by (simp add: dict_keys_def)

lemma fold_dict_set_get:
  "dict_get (fold (\<lambda>(k, v). dict_set k v) rs d) k =
     (case map_of (rev rs) k of Some v \<Rightarrow> Some v | None \<Rightarrow> dict_get d k)"
proof (induction rs arbitrary: d)
  case Nil
  then show ?case by simp
next
  case (Cons r rs)
  obtain k' v' where r: "r = (k', v')" by (cases r)
  show ?case
    by (auto simp: Cons r map_of_append dict_get_set map_add_def split: option.splits)
qed

lemma fold_dict_set_distinct:
  "distinct (dict_keys d) \<Longrightarrow> distinct (dict_keys (fold (\<lambda>(k, v). dict_set k v) rs d))"
proof (induction rs arbitrary: d)
  case Nil
  then show ?case by simp
next
  case (Cons r rs)
  then show ?case by (cases r) (simp add: distinct_dict_set)
qed

lemma dict_of_rows_get: "dict_get (dict_of_rows rs) k = map_of (rev rs) k"
  by (simp add: dict_of_rows_def fold_dict_set_get dict_get_Nil split: option.splits)

lemma dict_of_rows_distinct: "distinct (dict_keys (dict_of_rows rs))"
  unfolding dict_of_rows_def by (rule fold_dict_set_distinct) (simp add: dict_keys_Nil)

lemma map_of_rev_distinct: "distinct (map fst xs) \<Longrightarrow> map_of (rev xs) = map_of xs"
  by (rule map_of_inject_set [THEN iffD2]) (simp_all add: rev_map [symmetric])

lemma dict_merge_get:
  "distinct (dict_keys b) \<Longrightarrow>
     dict_get (dict_merge a b) k = (case dict_get b k of Some v \<Rightarrow> Some v | None \<Rightarrow> dict_get a k)"
proof -
  assume "distinct (dict_keys b)"
  then have "map_of (rev b) k = dict_get b k"
    by (simp add: map_of_rev_distinct dict_keys_def dict_get_def)
  then show ?thesis
    by (simp add: dict_merge_def fold_dict_set_get)
qed

lemma dict_merge_distinct:
  "distinct (dict_keys a) \<Longrightarrow> distinct (dict_keys (dict_merge a b))"
  by (simp add: dict_merge_def fold_dict_set_distinct)

lemma load_price_data_distinct: "distinct (dict_keys (load_price_data f))"
  by (simp add: load_price_data_def dict_of_rows_distinct dict_keys_Nil split: option.splits)

lemma fetch_historical_distinct:
  "fetch_historical_tao_prices clk fd from_date to_date = Inr prices \<Longrightarrow>
     distinct (dict_keys prices)"
proof -
  obtain p where p: "fetch_tao_price_data fd = Inr p"
    by (simp add: fetch_tao_price_data_cases)
  assume "fetch_historical_tao_prices clk fd from_date to_date = Inr prices"
  then show ?thesis
    by (auto simp: fetch_historical_cases current_price_fallback_cases [OF p]
        dict_of_rows_distinct dict_keys_Nil dict_keys_Cons split: sum.splits if_splits)
qed

lemma fetch_historical_returns:
  "\<exists>prices. fetch_historical_tao_prices clk fd from_date to_date = Inr prices"
proof -
  obtain q where q: "fetch_tao_price_data fd = Inr q"
    by (simp add: fetch_tao_price_data_cases)
  show ?thesis
    by (simp add: fetch_historical_cases current_price_fallback_cases [OF q] split: sum.splits)
qed

section \<open>Facts about the price cache\<close>

lemma max_by_greatest:
  "key (max_by key best xs) \<ge> key best \<and> (\<forall>x \<in> set xs. key x \<le> key (max_by key best xs))"
proof (induction xs arbitrary: best)
  case Nil
  then show ?case by simp
next
  case (Cons x xs)
  show ?case
  proof (cases "key x > key best")
    case True
    with Cons [of x] show ?thesis by force
  next
    case False
    with Cons [of best] show ?thesis by force
  qed
qed

lemma max_by_mem: "max_by key best xs \<in> set (best # xs)"
  by (induction xs arbitrary: best) (auto split: if_splits)

lemma save_price_data_cases:
  "snd (save_price_data clk dir prices) =
     (if prices = [] then dir
      else dict_set (''tao_price_data_'' @ file_stamp clk @ ''.csv'')
             \<lparr>ctime = now clk, rows = Some (sort_key fst prices)\<rparr> dir)"
  by (simp add: save_price_data_def Let_def)

lemma timedelta_days_fresh: "delta \<le> day \<Longrightarrow> \<not> timedelta_days delta > 1"
  by (simp add: timedelta_days_def day_def)

lemma timedelta_days_stale: "2 * day \<le> delta \<Longrightarrow> timedelta_days delta > 1"
  by (simp add: timedelta_days_def day_def)

lemma timedelta_days_iff: "timedelta_days delta > 1 \<longleftrightarrow> 2 * day \<le> delta"
  unfolding timedelta_days_def day_def by linarith

lemma saved_snapshot_loads_back:
  assumes "distinct (dict_keys prices)"
  shows "dict_get (load_price_data \<lparr>ctime = t, rows = Some (sort_key fst prices)\<rparr>) k =
         dict_get prices k"
proof -
  have d: "distinct (map fst (sort_key fst prices))"
    using assms by (simp add: dict_keys_def distinct_map)
  have e: "distinct (map fst prices)"
    using assms by (simp add: dict_keys_def)
  have "map_of (rev (sort_key fst prices)) = map_of (sort_key fst prices)"
    using d by (rule map_of_rev_distinct)
  also have "\<dots> = map_of prices"
    using d e by (simp add: map_of_inject_set)
  finally have "map_of (rev (sort_key fst prices)) k = dict_get prices k"
    by (simp add: dict_get_def)
  then show ?thesis
    by (simp add: load_price_data_def dict_of_rows_get)
qed

lemma glob_dir_snapshot:
  "glob_price_files dir_snapshot =
     [(''tao_price_data_20240101_000000.csv'', \<lparr>ctime = 0, rows = Some [(''2024-01-01'', 100)]\<rparr>)]"
  by (simp add: glob_price_files_def dir_snapshot_def is_price_file_name_def suffix_def)

lemma glob_dir_unreadable:
  "glob_price_files dir_unreadable =
     [(''tao_price_data_20240101_000000.csv'', \<lparr>ctime = 0, rows = None\<rparr>)]"
  by (simp add: glob_price_files_def dir_unreadable_def is_price_file_name_def suffix_def)

lemma fetch_historical_feed_ok:
  "fetch_historical_tao_prices clk feed_ok None None =
     Inr [(''2024-01-01'', 105), (''2024-01-02'', 107)]"
  by (simp add: fetch_historical_cases feed_ok_def dict_of_rows_def)

lemma snapshot_36_hours_old_not_refreshed:
  "day < now clock_36h - 0 \<and>
   get_or_fetch_price_data clock_36h feed_ok dir_snapshot None None =
     Inr ([(''2024-01-01'', 100)], dir_snapshot)"
  by (simp add: get_or_fetch_price_data_def glob_dir_snapshot clock_36h_def
      timedelta_days_def day_def load_price_data_def dict_of_rows_def)

section \<open>Facts about the normalization\<close>

lemma process_data_supplied:
  "process_data to_datetime iso_date clk fd dir raw_data True (Some prices) =
     (if raw_data = [] then Inl KeyError
      else Inr (sort_key timestamp
                  (map (process_entry to_datetime iso_date True (Some prices)) raw_data), dir))"
  by (simp add: process_data_def sort_values_timestamp_def)

lemma process_data_rows:
  "process_data to_datetime iso_date clk fd dir raw_data include_usd price_data = Inr (df, dir') \<Longrightarrow>
     \<exists>price_data'. raw_data \<noteq> [] \<and>
       df = sort_key timestamp
              (map (process_entry to_datetime iso_date include_usd price_data') raw_data)"
  by (auto simp: process_data_def sort_values_timestamp_def split: sum.splits if_splits prod.splits)

lemma process_entry_timestamp:
  "timestamp (process_entry to_datetime iso_date include_usd price_data entry) =
     to_datetime (raw_timestamp entry)"
  by (simp add: process_entry_def Let_def split: option.splits)

lemma process_entry_units:
  "issued_tao (process_entry to_datetime iso_date include_usd price_data entry) =
     real_of_int (issued entry) / 10 ^ 9 \<and>
   staked_tao (process_entry to_datetime iso_date include_usd price_data entry) =
     real_of_int (staked entry) / 10 ^ 9 \<and>
   circulating_tao (process_entry to_datetime iso_date include_usd price_data entry) =
     real_of_int (issued entry) / 10 ^ 9 - real_of_int (staked entry) / 10 ^ 9 \<and>
   staked_percentage (process_entry to_datetime iso_date include_usd price_data entry) =
     (if issued entry > 0 then real_of_int (staked entry) / real_of_int (issued entry) * 100 else 0)"
  by (simp add: process_entry_def Let_def split: option.splits)

lemma process_entry_usd:
  "process_entry to_datetime iso_date True (Some prices) entry = dp \<Longrightarrow>
     (case get_price_for_date prices (iso_date (replace_Z (raw_timestamp entry))) of
        None \<Rightarrow>
          tao_price_usd dp = None \<and> total_market_cap_usd dp = None \<and>
          staked_market_cap_usd dp = None \<and> circulating_market_cap_usd dp = None
      | Some price \<Rightarrow>
          tao_price_usd dp = Some price \<and>
          total_market_cap_usd dp = Some (issued_tao dp * price) \<and>
          staked_market_cap_usd dp = Some (staked_tao dp * price) \<and>
          circulating_market_cap_usd dp = Some (circulating_tao dp * price))"
  by (auto simp: process_entry_def Let_def lookup_tao_price_usd_eq split: option.splits)

lemma percent_bounds: "0 \<le> (x::real) \<Longrightarrow> x \<le> 1 \<Longrightarrow> 0 \<le> x * 100 \<and> x * 100 \<le> 100"
  by simp

lemma get_or_fetch_returns:
  "\<exists>r. get_or_fetch_price_data clk fd dir start_date end_date = Inr r"
proof -
  obtain prices where "fetch_historical_tao_prices clk fd start_date end_date = Inr prices"
    using fetch_historical_returns by blast
  then show ?thesis
    by (simp add: get_or_fetch_price_data_def Let_def split: list.splits)
qed

lemma process_data_cases:
  "(raw_data = [] \<longrightarrow>
      process_data to_datetime iso_date clk fd dir raw_data include_usd price_data = Inl KeyError) \<and>
   (raw_data \<noteq> [] \<longrightarrow>
      (\<exists>df dir'. process_data to_datetime iso_date clk fd dir raw_data include_usd price_data =
                   Inr (df, dir')))"
proof -
  obtain r where r: "get_or_fetch_price_data clk fd dir None None = Inr r"
    using get_or_fetch_returns by blast
  show ?thesis
    by (cases r) (simp add: process_data_def sort_values_timestamp_def r)
qed

lemma sorted_rows:
  fixes key :: "'a \<Rightarrow> 'k::linorder"
  shows "sorted (map key (sort_key key xs)) \<and> length (sort_key key xs) = length xs \<and>
     mset (map key (sort_key key xs)) = mset (map key xs) \<and>
     (sorted_wrt (<) (map key (sort_key key xs)) \<longleftrightarrow> distinct (map key xs))"
proof -
  have m: "mset (map key (sort_key key xs)) = mset (map key xs)"
    by simp
  then have "distinct (map key (sort_key key xs)) \<longleftrightarrow> distinct (map key xs)"
    by (rule mset_eq_imp_distinct_iff)
  then show ?thesis
    by (simp add: strict_sorted_iff)
qed

lemma process_entry_timestamps:
  "map timestamp (map (process_entry to_datetime iso_date include_usd price_data) raw_data) =
     map (\<lambda>entry. to_datetime (raw_timestamp entry)) raw_data"
  by (simp add: process_entry_timestamp)

lemma process_entry_plain_timestamps:
  "map p_timestamp (map (process_entry_plain to_datetime) raw_data) =
     map (\<lambda>entry. to_datetime (raw_timestamp entry)) raw_data"
  by (simp add: process_entry_plain_def)

lemma process_data_two_entries:
  "process_data to_datetime_ex iso_date_ex clock_ex feed_ok dir_snapshot [entry_a, entry_b]
      True (Some prices_ex) =
     Inr ([process_entry to_datetime_ex iso_date_ex True (Some prices_ex) entry_b,
           process_entry to_datetime_ex iso_date_ex True (Some prices_ex) entry_a], dir_snapshot)"
  by (simp add: process_data_supplied process_entry_timestamp to_datetime_ex_def
      entry_a_def entry_b_def)

lemma price_for_entry_a:
  "get_price_for_date prices_ex (iso_date_ex (replace_Z (raw_timestamp entry_a))) = Some 110"
  by (simp add: get_price_for_date_def prices_ex_def iso_date_ex_def replace_Z_def entry_a_def
      dict_contains_def dict_get_def dict_keys_def)

lemma price_for_entry_a_empty:
  "get_price_for_date [] (iso_date_ex (replace_Z (raw_timestamp entry_a))) = (None :: real option)"
  by (simp add: get_price_for_date_def dict_contains_def dict_get_def dict_keys_def)

lemma staked_above_issued_percentage:
  "staked_percentage (process_entry to_datetime_ex iso_date_ex False None
     \<lparr>raw_timestamp = ''2024-01-03T00:00:00Z'', raw_block_number = 1, issued = 1, staked = 2,
      raw_accounts = 0, raw_balance_holders = 0\<rparr>) = 200"
  by (simp add: process_entry_units)

lemma process_entry_all_or_none:
  "(tao_price_usd (process_entry to_datetime iso_date include_usd price_data entry) \<noteq> None \<and>
    total_market_cap_usd (process_entry to_datetime iso_date include_usd price_data entry) \<noteq> None \<and>
    staked_market_cap_usd (process_entry to_datetime iso_date include_usd price_data entry) \<noteq> None \<and>
    circulating_market_cap_usd (process_entry to_datetime iso_date include_usd price_data entry) \<noteq> None) \<or>
   (tao_price_usd (process_entry to_datetime iso_date include_usd price_data entry) = None \<and>
    total_market_cap_usd (process_entry to_datetime iso_date include_usd price_data entry) = None \<and>
    staked_market_cap_usd (process_entry to_datetime iso_date include_usd price_data entry) = None \<and>
    circulating_market_cap_usd (process_entry to_datetime iso_date include_usd price_data entry) = None)"
  by (simp add: process_entry_def Let_def del: not_None_eq split: option.splits)

section \<open>Claims about nearest-date price resolution\<close>

text \<open>
  Claim C1. For every target date \<open>d\<close> and price map: when \<open>d\<close> is a key, resolution
  returns the price of \<open>d\<close>; otherwise the price of the smallest key \<open>k \<ge> d\<close>;
  when every key is below \<open>d\<close>, the price of the greatest key; a non-empty map always
  yields a price and the empty map yields none. The rule written inline in
  \<^verbatim>\<open>process_data\<close> computes the same result as \<^verbatim>\<open>get_price_for_date\<close>.
\<close>

theorem get_price_for_date_nearest:
  "(dict_contains d pd \<longrightarrow>
      get_price_for_date pd d = dict_get pd d \<and> dict_get pd d \<noteq> None) \<and>
   (\<not> dict_contains d pd \<and> k \<in> set (dict_keys pd) \<and> d \<le> k \<and>
      (\<forall>k' \<in> set (dict_keys pd). d \<le> k' \<longrightarrow> k \<le> k')
      \<longrightarrow> get_price_for_date pd d = dict_get pd k \<and> dict_get pd k \<noteq> None) \<and>
   (m \<in> set (dict_keys pd) \<and> (\<forall>k' \<in> set (dict_keys pd). k' \<le> m) \<and> m < d
      \<longrightarrow> get_price_for_date pd d = dict_get pd m \<and> dict_get pd m \<noteq> None) \<and>
   (pd = [] \<longrightarrow> get_price_for_date pd d = None) \<and>
   (pd \<noteq> [] \<longrightarrow> get_price_for_date pd d \<noteq> None) \<and>
   lookup_tao_price_usd pd d = get_price_for_date pd d"
proof (intro conjI impI)
  assume "dict_contains d pd"
  then show "get_price_for_date pd d = dict_get pd d"
    by (simp add: get_price_for_date_def)
next
  assume "dict_contains d pd"
  then show "dict_get pd d \<noteq> None" by (simp add: dict_contains_def)
next
  assume k: "\<not> dict_contains d pd \<and> k \<in> set (dict_keys pd) \<and> d \<le> k \<and>
      (\<forall>k' \<in> set (dict_keys pd). d \<le> k' \<longrightarrow> k \<le> k')"
  have "find (\<lambda>a. a \<ge> d) (sort (dict_keys pd)) = Some k"
    using k by (intro find_sorted_least) auto
  with k show "get_price_for_date pd d = dict_get pd k"
    by (simp add: get_price_for_date_def)
  from k show "dict_get pd k \<noteq> None" by (simp add: dict_get_key)
next
  assume m: "m \<in> set (dict_keys pd) \<and> (\<forall>k' \<in> set (dict_keys pd). k' \<le> m) \<and> m < d"
  then have nc: "\<not> dict_contains d pd"
    by (auto simp: dict_contains_iff)
  from m have "find (\<lambda>a. a \<ge> d) (sort (dict_keys pd)) = None"
    by (auto simp: find_None_all)
  moreover from m have "last (sort (dict_keys pd)) = m"
    by (intro last_sorted_greatest) auto
  moreover from m have "sort (dict_keys pd) \<noteq> []"
    by (metis empty_iff empty_set set_sort)
  ultimately show "get_price_for_date pd d = dict_get pd m"
    using nc by (simp add: get_price_for_date_def)
  from m show "dict_get pd m \<noteq> None" by (simp add: dict_get_key)
next
  assume "pd = []"
  then show "get_price_for_date pd d = None"
    by (simp add: get_price_for_date_def dict_contains_def dict_get_def dict_keys_def)
next
  assume ne: "pd \<noteq> []"
  let ?ks = "sort (dict_keys pd)"
  from ne have kne: "?ks \<noteq> []"
    by (metis dict_keys_def length_0_conv length_map length_sort)
  show "get_price_for_date pd d \<noteq> None"
  proof (cases "dict_contains d pd")
    case True
    then show ?thesis by (simp add: get_price_for_date_def dict_contains_def)
  next
    case False
    show ?thesis
    proof (cases "find (\<lambda>a. a \<ge> d) ?ks")
      case None
      from kne have "last ?ks \<in> set (dict_keys pd)"
        using last_in_set [of ?ks] by simp
      then have "dict_get pd (last ?ks) \<noteq> None" by (rule dict_get_key)
      with None False kne show ?thesis by (simp add: get_price_for_date_def)
    next
      case (Some a)
      then have "a \<in> set (dict_keys pd)"
        using find_Some_mem [of "\<lambda>a. a \<ge> d" ?ks a] by simp
      then have "dict_get pd a \<noteq> None" by (rule dict_get_key)
      with Some False show ?thesis by (simp add: get_price_for_date_def)
    qed
  qed
next
  show "lookup_tao_price_usd pd d = get_price_for_date pd d"
    by (rule lookup_tao_price_usd_eq)
qed

text \<open>
  The examples of the specification: with prices for 2024-01-01 and 2024-01-05, the
  date 2024-01-03 resolves forward to 110, 2024-01-10 falls back to the last price 110,
  2024-01-01 is an exact match, and the empty map resolves nothing.
\<close>

theorem get_price_for_date_nearest_witness:
  "get_price_for_date [(''2024-01-01'', 100::real), (''2024-01-05'', 110)] ''2024-01-03'' = Some 110 \<and>
   get_price_for_date [(''2024-01-01'', 100::real), (''2024-01-05'', 110)] ''2024-01-10'' = Some 110 \<and>
   get_price_for_date [(''2024-01-01'', 100::real), (''2024-01-05'', 110)] ''2024-01-01'' = Some 100 \<and>
   get_price_for_date ([] :: (string, real) dict) ''2024-01-03'' = None"
  using
    get_price_for_date_nearest [of "''2024-01-03''"
      "[(''2024-01-01'', 100::real), (''2024-01-05'', 110)]" "''2024-01-05''" "''2024-01-05''"]
    get_price_for_date_nearest [of "''2024-01-10''"
      "[(''2024-01-01'', 100::real), (''2024-01-05'', 110)]" "''2024-01-05''" "''2024-01-05''"]
    get_price_for_date_nearest [of "''2024-01-01''"
      "[(''2024-01-01'', 100::real), (''2024-01-05'', 110)]" "''2024-01-05''" "''2024-01-05''"]
    get_price_for_date_nearest [of "''2024-01-03''" "[] :: (string, real) dict" "[]" "[]"]
  by (simp_all add: dict_contains_def dict_get_def dict_keys_def)

section \<open>Claims about the paginated fetch\<close>

text \<open>
  Claim C4. When every request for a page \<open>p\<close> in \<open>1..N\<close> is answered successfully
  with the non-empty records \<open>pages p\<close> and pagination metadata \<open>total_pages = N\<close>,
  \<^verbatim>\<open>fetch_all_data\<close> returns (fuel \<open>N\<close> is enough) exactly the concatenation of pages
  \<open>1..N\<close>; it requests the pages \<open>1, 2, ..., N\<close> in this order, sleeping 3 seconds
  between two pages, and its last effect is the request for page \<open>N\<close>: page \<open>N + 1\<close>
  is not requested. In any state of the loop, a successful response whose \<^verbatim>\<open>data\<close>
  is absent or empty makes the call return the records accumulated so far.
\<close>

theorem fetch_all_data_pagination:
  "((\<forall>k p. 1 \<le> p \<and> p \<le> N \<longrightarrow>
        (\<exists>b pg. upstream k p = Ok b \<and> data b = Some (pages p) \<and> pages p \<noteq> [] \<and>
                pagination b = Some pg \<and> total_pages pg = Some (int N))) \<and>
     1 \<le> N \<and> N \<le> fuel
     \<longrightarrow> fetch_all_data fuel upstream =
           Some (concat (map pages [1..<Suc N]),
                 concat (map (\<lambda>p. [Request p, Sleep 3]) [1..<N]) @ [Request N])) \<and>
   (0 < max_retries \<and> upstream' n page = Ok b' \<and> (data b' = None \<or> data b' = Some [])
     \<longrightarrow> page_loop (Suc fuel') upstream' max_retries page n all_data trace =
           Some (all_data, trace @ [Request page]))"
proof (intro conjI impI)
  assume h: "(\<forall>k p. 1 \<le> p \<and> p \<le> N \<longrightarrow>
        (\<exists>b pg. upstream k p = Ok b \<and> data b = Some (pages p) \<and> pages p \<noteq> [] \<and>
                pagination b = Some pg \<and> total_pages pg = Some (int N))) \<and>
     1 \<le> N \<and> N \<le> fuel"
  have ok: "\<forall>k p. 1 \<le> p \<and> p \<le> N \<longrightarrow>
      (\<exists>b. upstream k p = Ok b \<and> data b = Some (pages p) \<and> get_total_pages b = int N)"
  proof (intro allI impI)
    fix k p
    assume "1 \<le> p \<and> p \<le> N"
    with h obtain b pg where "upstream k p = Ok b" "data b = Some (pages p)"
      "pagination b = Some pg" "total_pages pg = Some (int N)" by blast
    then show "\<exists>b. upstream k p = Ok b \<and> data b = Some (pages p) \<and> get_total_pages b = int N"
      by (auto simp: get_total_pages_def)
  qed
  have ne: "\<forall>p. 1 \<le> p \<and> p \<le> N \<longrightarrow> pages p \<noteq> []"
    using h by blast
  have "page_loop fuel upstream MAX_RETRIES 1 0 [] [] =
      Some ([] @ concat (map pages [1..<Suc N]),
            [] @ concat (map (\<lambda>p. [Request p, Sleep 3]) [1..<N]) @ [Request N])"
    using h by (intro paging_all_pages ok ne) (auto simp: MAX_RETRIES_def)
  then show "fetch_all_data fuel upstream =
      Some (concat (map pages [1..<Suc N]),
            concat (map (\<lambda>p. [Request p, Sleep 3]) [1..<N]) @ [Request N])"
    by (simp add: fetch_all_data_def)
next
  assume "0 < max_retries \<and> upstream' n page = Ok b' \<and> (data b' = None \<or> data b' = Some [])"
  then have "retry_loop upstream' max_retries page n 0 all_data trace =
      (Return all_data, n + 1, trace @ [Request page])"
    by (intro retry_loop_no_data) auto
  then show "page_loop (Suc fuel') upstream' max_retries page n all_data trace =
      Some (all_data, trace @ [Request page])"
    by simp
qed

text \<open>
  The mock of the specification: three non-empty pages with \<open>total_pages = 3\<close>; and a
  fourth page that comes back empty ends the stream with what was accumulated.
\<close>

theorem fetch_all_data_pagination_witness:
  "fetch_all_data 3 upstream_three_pages =
     Some ([11, 12, 21, 31, 32], [Request 1, Sleep 3, Request 2, Sleep 3, Request 3]) \<and>
   page_loop (Suc 0) upstream_three_pages 3 4 3 [11, 12, 21, 31, 32] [] =
     Some ([11, 12, 21, 31, 32], [Request 4])"
  using fetch_all_data_pagination [of 3 upstream_three_pages three_pages 3 3
      upstream_three_pages 3 4
      "\<lparr>data = Some [], pagination = Some \<lparr>total_pages = Some 3, total_items = Some 5\<rparr>\<rparr>"
      0 "[11, 12, 21, 31, 32]" "[]"]
  by (simp add: upstream_three_pages_def three_pages_def upt_rec)

text \<open>
  Claim C5, as stated: with the attempt counter starting at 0, a 429 response is followed
  by a wait of \<open>5 + 2 ^ attempt\<close> seconds and any other error by a wait of
  \<open>2 ^ attempt\<close> seconds. The source increments \<^verbatim>\<open>retry_count\<close> before it computes
  the wait of the \<^verbatim>\<open>except\<close> branch: after one transport error the wait is 2 seconds,
  not \<open>2 ^ 0 = 1\<close>.
\<close>

theorem error_backoff_counterexample:
  "fetch_all_data 1 upstream_fail_once = Some ([5], [Request 1, Sleep 2, Request 1]) \<and>
   fetch_all_data 1 upstream_fail_once \<noteq> Some ([5], [Request 1, Sleep (2 ^ 0), Request 1])"
  by (simp add: fetch_all_data_def MAX_RETRIES_def upstream_fail_once_def retry_loop.simps
      get_total_pages_def)

text \<open>
  Claim C5, amended. With \<open>retry_count\<close> the counter when the response arrives
  (it starts at 0): a 429 response is followed by a sleep of \<open>5 + 2 ^ retry_count\<close>
  seconds and a retry with the counter incremented; any other error is followed, when
  \<open>retry_count + 1 < max_retries\<close>, by a sleep of \<open>2 ^ (retry_count + 1)\<close> seconds
  and a retry, and otherwise by the return of \<^verbatim>\<open>all_data\<close> without a sleep. So \<open>j\<close>
  responses 429 in a row give the sleeps \<open>5 + 2 ^ 0, ..., 5 + 2 ^ (j - 1)\<close>, and \<open>j\<close>
  errors in a row (\<open>j < max_retries\<close>) give the sleeps \<open>2 ^ 1, ..., 2 ^ j\<close>.
\<close>

theorem retry_backoff_schedule:
  "(retry_count < max_retries \<and> upstream n page = RateLimited \<longrightarrow>
      retry_loop upstream max_retries page n retry_count all_data trace =
      retry_loop upstream max_retries page (n + 1) (retry_count + 1) all_data
        (trace @ [Request page, Sleep (5 + 2 ^ retry_count)])) \<and>
   (retry_count + 1 < max_retries \<and> upstream n page = RequestFailed \<longrightarrow>
      retry_loop upstream max_retries page n retry_count all_data trace =
      retry_loop upstream max_retries page (n + 1) (retry_count + 1) all_data
        (trace @ [Request page, Sleep (2 ^ (retry_count + 1))])) \<and>
   (retry_count < max_retries \<and> \<not> retry_count + 1 < max_retries \<and>
    upstream n page = RequestFailed \<longrightarrow>
      retry_loop upstream max_retries page n retry_count all_data trace =
      (Return all_data, n + 1, trace @ [Request page])) \<and>
   (j \<le> max_retries \<and> (\<forall>i<j. upstream (n + i) page = RateLimited) \<longrightarrow>
      retry_loop upstream max_retries page n 0 all_data trace =
      retry_loop upstream max_retries page (n + j) j all_data
        (trace @ concat (map (\<lambda>i. [Request page, Sleep (5 + 2 ^ i)]) [0..<j]))) \<and>
   (j < max_retries \<and> (\<forall>i<j. upstream (n + i) page = RequestFailed) \<longrightarrow>
      retry_loop upstream max_retries page n 0 all_data trace =
      retry_loop upstream max_retries page (n + j) j all_data
        (trace @ concat (map (\<lambda>i. [Request page, Sleep (2 ^ (i + 1))]) [0..<j])))"
proof (intro conjI impI)
  assume "retry_count < max_retries \<and> upstream n page = RateLimited"
  then show "retry_loop upstream max_retries page n retry_count all_data trace =
      retry_loop upstream max_retries page (n + 1) (retry_count + 1) all_data
        (trace @ [Request page, Sleep (5 + 2 ^ retry_count)])"
    by (intro retry_loop_rate_limited) auto
next
  assume "retry_count + 1 < max_retries \<and> upstream n page = RequestFailed"
  then show "retry_loop upstream max_retries page n retry_count all_data trace =
      retry_loop upstream max_retries page (n + 1) (retry_count + 1) all_data
        (trace @ [Request page, Sleep (2 ^ (retry_count + 1))])"
    by (intro retry_loop_failed_retry) auto
next
  assume "retry_count < max_retries \<and> \<not> retry_count + 1 < max_retries \<and>
    upstream n page = RequestFailed"
  then show "retry_loop upstream max_retries page n retry_count all_data trace =
      (Return all_data, n + 1, trace @ [Request page])"
    by (intro retry_loop_failed_last) auto
next
  assume "j \<le> max_retries \<and> (\<forall>i<j. upstream (n + i) page = RateLimited)"
  then show "retry_loop upstream max_retries page n 0 all_data trace =
      retry_loop upstream max_retries page (n + j) j all_data
        (trace @ concat (map (\<lambda>i. [Request page, Sleep (5 + 2 ^ i)]) [0..<j]))"
    using rate_limited_run [of 0 j max_retries upstream n page all_data trace] by simp
next
  assume "j < max_retries \<and> (\<forall>i<j. upstream (n + i) page = RequestFailed)"
  then show "retry_loop upstream max_retries page n 0 all_data trace =
      retry_loop upstream max_retries page (n + j) j all_data
        (trace @ concat (map (\<lambda>i. [Request page, Sleep (2 ^ (i + 1))]) [0..<j]))"
    using request_failed_run [of 0 j max_retries upstream n page all_data trace] by simp
qed

text \<open>
  Two 429 responses are followed by sleeps of \<open>5 + 2 ^ 0 = 6\<close> and \<open>5 + 2 ^ 1 = 7\<close>
  seconds before the third attempt; the first transport error by a sleep of 2 seconds and
  the second by a sleep of 4 seconds; a transport error at the last attempt returns at
  once.
\<close>

theorem retry_backoff_schedule_witness:
  "retry_loop upstream_429_twice 3 1 1 1 [] [Request 1, Sleep 6] =
     retry_loop upstream_429_twice 3 1 2 2 [] [Request 1, Sleep 6, Request 1, Sleep 7] \<and>
   retry_loop upstream_page1_failing 3 1 1 1 [] [Request 1, Sleep 2] =
     retry_loop upstream_page1_failing 3 1 2 2 [] [Request 1, Sleep 2, Request 1, Sleep 4] \<and>
   retry_loop upstream_page1_failing 3 1 2 2 [] [] = (Return [], 3, [Request 1]) \<and>
   retry_loop upstream_429_twice 3 1 0 0 [] [] =
     retry_loop upstream_429_twice 3 1 2 2 [] [Request 1, Sleep 6, Request 1, Sleep 7] \<and>
   retry_loop upstream_fail_once 3 1 0 0 [] [] =
     retry_loop upstream_fail_once 3 1 1 1 [] [Request 1, Sleep 2]"
proof -
  have h1: "(1::nat) < 3 \<and> upstream_429_twice 1 1 = RateLimited"
    by (simp add: upstream_429_twice_def)
  have s1: "retry_loop upstream_429_twice 3 1 1 1 [] [Request 1, Sleep 6] =
     retry_loop upstream_429_twice 3 1 2 2 [] [Request 1, Sleep 6, Request 1, Sleep 7]"
    using retry_backoff_schedule [of 1 3 upstream_429_twice 1 1 "[]" "[Request 1, Sleep 6]" 0,
        THEN conjunct1, THEN mp, OF h1]
    by (simp add: numeral_2_eq_2)
  have h2: "(1::nat) + 1 < 3 \<and> upstream_page1_failing 1 1 = RequestFailed"
    by (simp add: upstream_page1_failing_def)
  have s2: "retry_loop upstream_page1_failing 3 1 1 1 [] [Request 1, Sleep 2] =
     retry_loop upstream_page1_failing 3 1 2 2 [] [Request 1, Sleep 2, Request 1, Sleep 4]"
    using retry_backoff_schedule [of 1 3 upstream_page1_failing 1 1 "[]" "[Request 1, Sleep 2]" 0,
        THEN conjunct2, THEN conjunct1, THEN mp, OF h2]
    by (simp add: numeral_2_eq_2 [symmetric])
  have hc: "(2::nat) < 3 \<and> \<not> (2::nat) + 1 < 3 \<and> upstream_page1_failing 2 1 = RequestFailed"
    by (simp add: upstream_page1_failing_def)
  have c: "retry_loop upstream_page1_failing 3 1 2 2 [] [] = (Return [], 3, [Request 1])"
    using retry_backoff_schedule [of 2 3 upstream_page1_failing 2 1 "[]" "[]" 0,
        THEN conjunct2, THEN conjunct2, THEN conjunct1, THEN mp, OF hc]
    by simp
  have ha: "(2::nat) \<le> 3 \<and> (\<forall>i<2. upstream_429_twice (0 + i) 1 = RateLimited)"
    by (simp add: upstream_429_twice_def)
  have a: "retry_loop upstream_429_twice 3 1 0 0 [] [] =
     retry_loop upstream_429_twice 3 1 2 2 [] [Request 1, Sleep 6, Request 1, Sleep 7]"
    using retry_backoff_schedule [of 0 3 upstream_429_twice 0 1 "[]" "[]" 2,
        THEN conjunct2, THEN conjunct2, THEN conjunct2, THEN conjunct1, THEN mp, OF ha]
    by (simp add: upt_rec numeral_2_eq_2)
  have hb: "(1::nat) < 3 \<and> (\<forall>i<1. upstream_fail_once (0 + i) 1 = RequestFailed)"
    by (simp add: upstream_fail_once_def)
  have b: "retry_loop upstream_fail_once 3 1 0 0 [] [] =
     retry_loop upstream_fail_once 3 1 1 1 [] [Request 1, Sleep 2]"
    using retry_backoff_schedule [of 0 3 upstream_fail_once 0 1 "[]" "[]" 1,
        THEN conjunct2, THEN conjunct2, THEN conjunct2, THEN conjunct2, THEN mp, OF hb]
    by (simp add: upt_rec)
  from s1 s2 c a b show ?thesis by simp
qed

text \<open>
  Claim C2 says that a page whose retries are exhausted is abandoned, that the records
  accumulated so far are returned and that no further page is requested. The source
  does so when the last failure is a transport error (\<open>error_exhaustion_returns\<close>,
  \<open>error_exhaustion_returns_accumulated\<close>). When the retries are used up by 429
  responses, the inner loop ends without a \<^verbatim>\<open>return\<close> and the outer loop goes on
  with the next page (\<open>rate_limit_exhaustion_continues\<close>): with page 1 always rate
  limited, \<^verbatim>\<open>fetch_all_data\<close> sleeps 6, 7 and 9 seconds, skips page 1, requests
  page 2 and returns the records of page 2 only. An upstream that always answers 429 is
  never left (\<open>rate_limited_forever\<close>).
\<close>

theorem rate_limit_exhaustion_skips_page:
  "fetch_all_data 2 upstream_page1_limited =
     Some ([7], [Request 1, Sleep 6, Request 1, Sleep 7, Request 1, Sleep 9, Sleep 3, Request 2])"
  by (simp add: fetch_all_data_def MAX_RETRIES_def upstream_page1_limited_def retry_loop.simps
      get_total_pages_def numeral_2_eq_2)

text \<open>
  Claim C10. A body without a \<^verbatim>\<open>pagination\<close> object, or whose pagination has no
  \<^verbatim>\<open>total_pages\<close>, gets \<open>total_pages = 1\<close>. In any state of the page loop with
  \<open>page \<ge> 1\<close>, such a successful response with non-empty \<^verbatim>\<open>data\<close> makes the call
  return right after appending the records; the request for this page is the last
  effect, so no further page is requested. Every page that \<^verbatim>\<open>fetch_all_data\<close>
  requests is \<open>\<ge> 1\<close>.
\<close>

theorem missing_total_pages_stops:
  "((pagination b = None \<or> (\<exists>pg. pagination b = Some pg \<and> total_pages pg = None))
      \<longrightarrow> get_total_pages b = 1) \<and>
   (0 < max_retries \<and> 1 \<le> page \<and> upstream n page = Ok b \<and>
    data b = Some records \<and> records \<noteq> [] \<and>
    (pagination b = None \<or> (\<exists>pg. pagination b = Some pg \<and> total_pages pg = None))
      \<longrightarrow> page_loop (Suc fuel) upstream max_retries page n all_data trace =
            Some (all_data @ records, trace @ [Request page])) \<and>
   (fetch_all_data fuel' upstream' = Some (result, trace') \<and> Request p \<in> set trace'
      \<longrightarrow> 1 \<le> p)"
proof (intro conjI impI)
  assume "pagination b = None \<or> (\<exists>pg. pagination b = Some pg \<and> total_pages pg = None)"
  then show "get_total_pages b = 1"
    by (auto simp: get_total_pages_def)
next
  assume h: "0 < max_retries \<and> 1 \<le> page \<and> upstream n page = Ok b \<and>
    data b = Some records \<and> records \<noteq> [] \<and>
    (pagination b = None \<or> (\<exists>pg. pagination b = Some pg \<and> total_pages pg = None))"
  then have "get_total_pages b = 1"
    by (auto simp: get_total_pages_def)
  with h have "retry_loop upstream max_retries page n 0 all_data trace =
      (Return (all_data @ records), n + 1, trace @ [Request page])"
    by (intro retry_loop_last_page) auto
  then show "page_loop (Suc fuel) upstream max_retries page n all_data trace =
      Some (all_data @ records, trace @ [Request page])"
    by simp
next
  assume "fetch_all_data fuel' upstream' = Some (result, trace') \<and> Request p \<in> set trace'"
  then show "1 \<le> p"
    using page_loop_requests [of fuel' upstream' MAX_RETRIES 1 0 "[]" "[]" result trace' p]
    by (simp add: fetch_all_data_def)
qed

text \<open>
  The upstream has records on pages 2 and 3 but sends no pagination object: only page 1
  is fetched.
\<close>

theorem missing_total_pages_stops_witness:
  "get_total_pages \<lparr>data = Some [11, 12 :: nat], pagination = None\<rparr> = 1 \<and>
   get_total_pages \<lparr>data = Some [11, 12 :: nat],
     pagination = Some \<lparr>total_pages = None, total_items = Some 5\<rparr>\<rparr> = 1 \<and>
   page_loop (Suc 0) upstream_no_pagination 3 1 0 [] [] = Some ([11, 12], [Request 1]) \<and>
   three_pages 2 \<noteq> [] \<and>
   fetch_all_data 1 upstream_no_pagination = Some ([11, 12], [Request 1]) \<and>
   Request 1 \<in> set [Request 1] \<and> (1::nat) \<le> 1"
proof -
  let ?b = "\<lparr>data = Some [11, 12 :: nat], pagination = None\<rparr>"
  let ?b' = "\<lparr>data = Some [11, 12 :: nat],
     pagination = Some \<lparr>total_pages = None, total_items = Some 5\<rparr>\<rparr>"
  have h1: "pagination ?b = None \<or> (\<exists>pg. pagination ?b = Some pg \<and> total_pages pg = None)"
    by simp
  have h1': "pagination ?b' = None \<or> (\<exists>pg. pagination ?b' = Some pg \<and> total_pages pg = None)"
    by simp
  have h2: "(0::nat) < 3 \<and> (1::nat) \<le> 1 \<and> upstream_no_pagination 0 1 = Ok ?b \<and>
      data ?b = Some [11, 12] \<and> [11, 12 :: nat] \<noteq> [] \<and>
      (pagination ?b = None \<or> (\<exists>pg. pagination ?b = Some pg \<and> total_pages pg = None))"
    by (simp add: upstream_no_pagination_def three_pages_def)
  have h3: "fetch_all_data 1 upstream_no_pagination = Some ([11, 12], [Request 1]) \<and>
      Request 1 \<in> set [Request 1]"
    using fetch_no_pagination by simp
  note t = missing_total_pages_stops [of ?b 3 1 upstream_no_pagination 0 "[11, 12]" 0 "[]" "[]"
      1 upstream_no_pagination "[11, 12]" "[Request 1]" 1]
  note t' = missing_total_pages_stops [of ?b' 3 1 upstream_no_pagination 0 "[11, 12]" 0 "[]" "[]"
      1 upstream_no_pagination "[11, 12]" "[Request 1]" 1]
  from t [THEN conjunct1, THEN mp, OF h1] have a: "get_total_pages ?b = 1" .
  from t' [THEN conjunct1, THEN mp, OF h1'] have a': "get_total_pages ?b' = 1" .
  from t [THEN conjunct2, THEN conjunct1, THEN mp, OF h2]
  have b: "page_loop (Suc 0) upstream_no_pagination 3 1 0 [] [] = Some ([11, 12], [Request 1])"
    by simp
  from t [THEN conjunct2, THEN conjunct2, THEN mp, OF h3] have c: "(1::nat) \<le> 1" .
  have d: "three_pages 2 \<noteq> []" by (simp add: three_pages_def)
  from a a' b c d h3 show ?thesis by blast
qed

section \<open>Claims about the price source and the price cache\<close>

text \<open>
  Claim C6, as stated: when the feed returns an empty history, the historical query
  falls back to the single-entry mapping \<open>{today: current_price()}\<close>. The fallback
  block stores the current price only when it is true as a Python value
  (\<^verbatim>\<open>if current_price:\<close>): a feed without history whose last \<^verbatim>\<open>Close\<close> is \<open>0.0\<close>
  yields the empty mapping, not \<open>{today: 0.0}\<close>.
\<close>

theorem empty_history_zero_price_counterexample:
  "history_range feed_zero ''2023-03-20'' (today clock_ex) = Inr [] \<and>
   fetch_tao_price_data feed_zero = Inr 0 \<and>
   fetch_historical_tao_prices clock_ex feed_zero None None = Inr [] \<and>
   fetch_historical_tao_prices clock_ex feed_zero None None \<noteq> Inr [(today clock_ex, 0)]"
  by (simp add: fetch_historical_tao_prices_def current_price_fallback_def
      fetch_tao_price_data_def try_except_def feed_zero_def)

text \<open>
  Claim C6, amended. For every outcome of the feed, \<^verbatim>\<open>fetch_historical_tao_prices\<close>
  and \<^verbatim>\<open>fetch_tao_price_data\<close> return without raising. The current price is the
  constant 500 when the feed raises or has no row. A non-empty history is returned as
  the mapping from its dates to their prices (the last row of a date wins). When the
  history is empty or the feed raises, the result is \<open>{today: current_price()}\<close> if
  that price is not zero, and the empty mapping if it is zero.
\<close>

theorem price_source_never_raises:
  "(\<exists>prices. fetch_historical_tao_prices clk fd from_date to_date = Inr prices) \<and>
   (\<exists>p. fetch_tao_price_data fd = Inr p) \<and>
   ((\<exists>e. history_1d fd = Inl e) \<or> history_1d fd = Inr [] \<longrightarrow>
      fetch_tao_price_data fd = Inr 500) \<and>
   (history_range fd (case from_date of None \<Rightarrow> ''2023-03-20'' | Some d \<Rightarrow> d)
        (case to_date of None \<Rightarrow> today clk | Some d \<Rightarrow> d) = Inr hist \<and> hist \<noteq> [] \<longrightarrow>
      fetch_historical_tao_prices clk fd from_date to_date = Inr (dict_of_rows hist) \<and>
      (\<forall>k. dict_get (dict_of_rows hist) k = map_of (rev hist) k)) \<and>
   ((history_range fd (case from_date of None \<Rightarrow> ''2023-03-20'' | Some d \<Rightarrow> d)
        (case to_date of None \<Rightarrow> today clk | Some d \<Rightarrow> d) = Inr [] \<or>
     (\<exists>e. history_range fd (case from_date of None \<Rightarrow> ''2023-03-20'' | Some d \<Rightarrow> d)
        (case to_date of None \<Rightarrow> today clk | Some d \<Rightarrow> d) = Inl e)) \<and>
    fetch_tao_price_data fd = Inr p \<longrightarrow>
      fetch_historical_tao_prices clk fd from_date to_date =
        Inr (if p \<noteq> 0 then [(today clk, p)] else []))"
proof (intro conjI impI)
  obtain q where q: "fetch_tao_price_data fd = Inr q"
    by (simp add: fetch_tao_price_data_cases)
  show "\<exists>prices. fetch_historical_tao_prices clk fd from_date to_date = Inr prices"
    by (simp add: fetch_historical_cases current_price_fallback_cases [OF q] split: sum.splits)
  show "\<exists>p. fetch_tao_price_data fd = Inr p"
    using q by blast
next
  assume "(\<exists>e. history_1d fd = Inl e) \<or> history_1d fd = Inr []"
  then show "fetch_tao_price_data fd = Inr 500"
    by (auto simp: fetch_tao_price_data_cases)
next
  assume "history_range fd (case from_date of None \<Rightarrow> ''2023-03-20'' | Some d \<Rightarrow> d)
        (case to_date of None \<Rightarrow> today clk | Some d \<Rightarrow> d) = Inr hist \<and> hist \<noteq> []"
  then show "fetch_historical_tao_prices clk fd from_date to_date = Inr (dict_of_rows hist)"
    by (simp add: fetch_historical_cases)
next
  show "\<forall>k. dict_get (dict_of_rows hist) k = map_of (rev hist) k"
    by (simp add: dict_of_rows_get)
next
  assume "(history_range fd (case from_date of None \<Rightarrow> ''2023-03-20'' | Some d \<Rightarrow> d)
        (case to_date of None \<Rightarrow> today clk | Some d \<Rightarrow> d) = Inr [] \<or>
     (\<exists>e. history_range fd (case from_date of None \<Rightarrow> ''2023-03-20'' | Some d \<Rightarrow> d)
        (case to_date of None \<Rightarrow> today clk | Some d \<Rightarrow> d) = Inl e)) \<and>
    fetch_tao_price_data fd = Inr p"
  then show "fetch_historical_tao_prices clk fd from_date to_date =
        Inr (if p \<noteq> 0 then [(today clk, p)] else [])"
    by (auto simp: fetch_historical_cases current_price_fallback_cases)
qed

text \<open>
  A feed that raises on every query gives the price 500 and the mapping
  \<open>{today: 500}\<close>; a feed with a history gives its mapping; a feed without history
  and with current price 0 gives the empty mapping.
\<close>

theorem price_source_never_raises_witness:
  "fetch_tao_price_data feed_down = Inr 500 \<and>
   fetch_historical_tao_prices clock_ex feed_ok None None =
     Inr (dict_of_rows [(''2024-01-01'', 105), (''2024-01-02'', 107)]) \<and>
   fetch_historical_tao_prices clock_ex feed_down None None = Inr [(''2024-01-04'', 500)] \<and>
   fetch_historical_tao_prices clock_ex feed_zero None None = Inr []"
proof -
  have a: "fetch_tao_price_data feed_down = Inr 500"
    using price_source_never_raises [of clock_ex feed_down None None "[]" 500]
    by (simp add: feed_down_def)
  have b: "fetch_historical_tao_prices clock_ex feed_ok None None =
     Inr (dict_of_rows [(''2024-01-01'', 105), (''2024-01-02'', 107)])"
    using price_source_never_raises [of clock_ex feed_ok None None
        "[(''2024-01-01'', 105), (''2024-01-02'', 107)]" 107]
    by (simp add: feed_ok_def)
  have c: "fetch_historical_tao_prices clock_ex feed_down None None = Inr [(''2024-01-04'', 500)]"
    using a price_source_never_raises [of clock_ex feed_down None None "[]" 500]
    by (simp add: feed_down_def clock_ex_def)
  have z: "fetch_tao_price_data feed_zero = Inr 0"
    by (simp add: fetch_tao_price_data_def try_except_def feed_zero_def)
  have d: "fetch_historical_tao_prices clock_ex feed_zero None None = Inr []"
    using z price_source_never_raises [of clock_ex feed_zero None None "[]" 0]
    by (simp add: feed_zero_def)
  from a b c d show ?thesis by simp
qed

text \<open>
  Claim C3, as stated: whenever a snapshot exists and is older than one day, the merged
  result is persisted as a new snapshot. \<^verbatim>\<open>save_price_data\<close> writes nothing when the
  dict is empty (\<^verbatim>\<open>if not price_data: return None\<close>): with a snapshot that is three
  days old and cannot be read, and a feed that yields no price, the merge is empty and
  the directory stays as it was.
\<close>

theorem empty_merge_not_persisted_counterexample:
  "glob_price_files dir_unreadable \<noteq> [] \<and>
   day < now clock_ex - 0 \<and>
   get_or_fetch_price_data clock_ex feed_zero dir_unreadable None None =
     Inr ([], dir_unreadable)"
  by (simp add: get_or_fetch_price_data_def glob_dir_unreadable clock_ex_def
      timedelta_days_def day_def load_price_data_def fetch_historical_cases
      fetch_tao_price_data_cases current_price_fallback_cases feed_zero_def dict_merge_def
      save_price_data_def)

text \<open>
  Claim C3, amended. Let a snapshot exist and let \<open>latest\<close> be the one that
  \<^verbatim>\<open>max(price_files, key=os.path.getctime)\<close> selects; its creation time is the
  greatest. If its age is at most one day, \<^verbatim>\<open>get_or_fetch_price_data\<close> returns the
  loaded snapshot and leaves the directory unchanged, whatever the feed holds. If its
  age is at least two days, the historical range is fetched and merged into the loaded
  snapshot: a date of the new prices gets the new price, every other date keeps its
  existing price; the merge is returned; and, unless the merge is empty, it is written as
  the snapshot \<^verbatim>\<open>tao_price_data_<stamp>.csv\<close> created now, which loads back as the
  merge. The statement leaves open the ages between one and two days: the source tests
  \<^verbatim>\<open>(datetime.now() - file_date).days > 1\<close>, whole days, so a snapshot that is 36
  hours old is returned without a fetch (\<open>snapshot_36_hours_old_not_refreshed\<close>) although
  the message of that branch reads "more than 1 day old".
\<close>

theorem get_or_fetch_price_data_snapshot:
  "glob_price_files dir = first_file # more_files \<and>
   latest = snd (max_by (\<lambda>(name, f). ctime f) first_file more_files) \<longrightarrow>
     (\<forall>(name, f) \<in> set (glob_price_files dir). ctime f \<le> ctime latest) \<and>
     (now clk - ctime latest \<le> day \<longrightarrow>
        get_or_fetch_price_data clk fd dir start_date end_date =
          Inr (load_price_data latest, dir)) \<and>
     (2 * day \<le> now clk - ctime latest \<longrightarrow>
        (\<exists>new_prices combined.
           fetch_historical_tao_prices clk fd start_date end_date = Inr new_prices \<and>
           combined = dict_merge (load_price_data latest) new_prices \<and>
           get_or_fetch_price_data clk fd dir start_date end_date =
             Inr (combined,
                  if combined = [] then dir
                  else dict_set (''tao_price_data_'' @ file_stamp clk @ ''.csv'')
                         \<lparr>ctime = now clk, rows = Some (sort_key fst combined)\<rparr> dir) \<and>
           (\<forall>k. dict_get combined k =
                  (case dict_get new_prices k of
                     Some v \<Rightarrow> Some v
                   | None \<Rightarrow> dict_get (load_price_data latest) k)) \<and>
           (\<forall>k. dict_get (load_price_data
                            \<lparr>ctime = now clk, rows = Some (sort_key fst combined)\<rparr>) k =
                  dict_get combined k)))"
proof (intro impI conjI)
  assume h: "glob_price_files dir = first_file # more_files \<and>
   latest = snd (max_by (\<lambda>(name, f). ctime f) first_file more_files)"
  let ?key = "\<lambda>(name, f). ctime f :: int"
  let ?m = "max_by ?key first_file more_files"
  have key: "?key ?m = ctime latest"
    using h by (simp add: case_prod_unfold)
  show "\<forall>(name, f) \<in> set (glob_price_files dir). ctime f \<le> ctime latest"
  proof (clarify)
    fix name f
    assume "(name, f) \<in> set (glob_price_files dir)"
    with h have "(name, f) = first_file \<or> (name, f) \<in> set more_files" by auto
    then have "?key (name, f) \<le> ?key ?m"
      using max_by_greatest [of ?key first_file more_files] by auto
    with key show "ctime f \<le> ctime latest" by simp
  qed
  {
    assume "now clk - ctime latest \<le> day"
    then have "\<not> timedelta_days (now clk - ctime latest) > 1"
      by (rule timedelta_days_fresh)
    with h show "get_or_fetch_price_data clk fd dir start_date end_date =
          Inr (load_price_data latest, dir)"
      by (simp add: get_or_fetch_price_data_def Let_def)
  }
  {
    assume "2 * day \<le> now clk - ctime latest"
    then have stale: "timedelta_days (now clk - ctime latest) > 1"
      by (rule timedelta_days_stale)
    obtain new_prices where new:
        "fetch_historical_tao_prices clk fd start_date end_date = Inr new_prices"
      using fetch_historical_returns by blast
    let ?c = "dict_merge (load_price_data latest) new_prices"
    have dn: "distinct (dict_keys new_prices)"
      using new by (rule fetch_historical_distinct)
    have dc: "distinct (dict_keys ?c)"
      by (rule dict_merge_distinct) (rule load_price_data_distinct)
    have r: "get_or_fetch_price_data clk fd dir start_date end_date =
             Inr (?c,
                  if ?c = [] then dir
                  else dict_set (''tao_price_data_'' @ file_stamp clk @ ''.csv'')
                         \<lparr>ctime = now clk, rows = Some (sort_key fst ?c)\<rparr> dir)"
      using h stale new
      by (simp add: get_or_fetch_price_data_def Let_def save_price_data_cases)
    show "\<exists>new_prices combined.
           fetch_historical_tao_prices clk fd start_date end_date = Inr new_prices \<and>
           combined = dict_merge (load_price_data latest) new_prices \<and>
           get_or_fetch_price_data clk fd dir start_date end_date =
             Inr (combined,
                  if combined = [] then dir
                  else dict_set (''tao_price_data_'' @ file_stamp clk @ ''.csv'')
                         \<lparr>ctime = now clk, rows = Some (sort_key fst combined)\<rparr> dir) \<and>
           (\<forall>k. dict_get combined k =
                  (case dict_get new_prices k of
                     Some v \<Rightarrow> Some v
                   | None \<Rightarrow> dict_get (load_price_data latest) k)) \<and>
           (\<forall>k. dict_get (load_price_data
                            \<lparr>ctime = now clk, rows = Some (sort_key fst combined)\<rparr>) k =
                  dict_get combined k)"
      using new r dict_merge_get [OF dn] saved_snapshot_loads_back [OF dc]
      by (intro exI [of _ new_prices] exI [of _ ?c]) blast
  }
qed

text \<open>
  The merge of the specification: the cache \<open>{2024-01-01: 100}\<close>, three days old,
  merged with the fresh prices \<open>{2024-01-01: 105, 2024-01-02: 107}\<close> gives
  \<open>{2024-01-01: 105, 2024-01-02: 107}\<close>, returned and written as a second snapshot.
  The same cache at the age of one day is returned as it is.
\<close>

theorem get_or_fetch_price_data_snapshot_witness:
  "get_or_fetch_price_data clock_1d feed_ok dir_snapshot None None =
     Inr ([(''2024-01-01'', 100)], dir_snapshot) \<and>
   get_or_fetch_price_data clock_ex feed_ok dir_snapshot None None =
     Inr ([(''2024-01-01'', 105), (''2024-01-02'', 107)],
          dir_snapshot @
          [(''tao_price_data_20240104_000000.csv'',
            \<lparr>ctime = 3 * day, rows = Some [(''2024-01-01'', 105), (''2024-01-02'', 107)]\<rparr>)])"
proof -
  let ?latest = "\<lparr>ctime = 0, rows = Some [(''2024-01-01'', 100 :: real)]\<rparr>"
  have g: "glob_price_files dir_snapshot =
      (''tao_price_data_20240101_000000.csv'', ?latest) # [] \<and>
      ?latest = snd (max_by (\<lambda>(name, f). ctime f)
                      (''tao_price_data_20240101_000000.csv'', ?latest) [])"
    by (simp add: glob_dir_snapshot)
  have fresh: "now clock_1d - ctime ?latest \<le> day"
    by (simp add: clock_1d_def)
  have stale: "2 * day \<le> now clock_ex - ctime ?latest"
    by (simp add: clock_ex_def day_def)
  have a: "get_or_fetch_price_data clock_1d feed_ok dir_snapshot None None =
     Inr ([(''2024-01-01'', 100)], dir_snapshot)"
    using get_or_fetch_price_data_snapshot [of dir_snapshot _ "[]" ?latest clock_1d feed_ok
        None None, THEN mp, OF g, THEN conjunct2, THEN conjunct1, THEN mp, OF fresh]
    by (simp add: load_price_data_def dict_of_rows_def)
  from get_or_fetch_price_data_snapshot [of dir_snapshot _ "[]" ?latest clock_ex feed_ok
        None None, THEN mp, OF g, THEN conjunct2, THEN conjunct2, THEN mp, OF stale]
  obtain new_prices combined where
    n: "fetch_historical_tao_prices clock_ex feed_ok None None = Inr new_prices" and
    c: "combined = dict_merge (load_price_data ?latest) new_prices" and
    r: "get_or_fetch_price_data clock_ex feed_ok dir_snapshot None None =
             Inr (combined,
                  if combined = [] then dir_snapshot
                  else dict_set (''tao_price_data_'' @ file_stamp clock_ex @ ''.csv'')
                         \<lparr>ctime = now clock_ex, rows = Some (sort_key fst combined)\<rparr>
                         dir_snapshot)"
    by blast
  from n have "new_prices = [(''2024-01-01'', 105), (''2024-01-02'', 107)]"
    by (simp add: fetch_historical_feed_ok)
  with c have "combined = [(''2024-01-01'', 105), (''2024-01-02'', 107)]"
    by (simp add: load_price_data_def dict_of_rows_def dict_merge_def)
  with r have b: "get_or_fetch_price_data clock_ex feed_ok dir_snapshot None None =
     Inr ([(''2024-01-01'', 105), (''2024-01-02'', 107)],
          dir_snapshot @
          [(''tao_price_data_20240104_000000.csv'',
            \<lparr>ctime = 3 * day, rows = Some [(''2024-01-01'', 105), (''2024-01-02'', 107)]\<rparr>)])"
    by (simp add: clock_ex_def dir_snapshot_def)
  from a b show ?thesis by simp
qed

section \<open>Claims about the normalization\<close>

text \<open>
  Claim C7. With \<^verbatim>\<open>include_usd\<close> set and a price map supplied, the row made from a
  record has all four USD fields or none of them. They are present exactly when the
  nearest-date rule resolves a price for the date of the record's timestamp, and then
  \<^verbatim>\<open>tao_price_usd\<close> is that price and the three market caps are \<open>issued_tao\<close>,
  \<open>staked_tao\<close> and \<open>circulating_tao\<close> times the price. No record is dropped: for a
  non-empty input, \<^verbatim>\<open>process_data\<close> returns one row per record, whether its price was
  resolved or not, and leaves the directory untouched. Every row that \<^verbatim>\<open>process_data\<close>
  returns, whatever its arguments, has all four USD fields or none.
\<close>

theorem usd_fields_all_or_none:
  "(dp = process_entry to_datetime iso_date True (Some prices) entry \<longrightarrow>
      (case get_price_for_date prices (iso_date (replace_Z (raw_timestamp entry))) of
         None \<Rightarrow>
           tao_price_usd dp = None \<and> total_market_cap_usd dp = None \<and>
           staked_market_cap_usd dp = None \<and> circulating_market_cap_usd dp = None
       | Some price \<Rightarrow>
           tao_price_usd dp = Some price \<and>
           total_market_cap_usd dp = Some (issued_tao dp * price) \<and>
           staked_market_cap_usd dp = Some (staked_tao dp * price) \<and>
           circulating_market_cap_usd dp = Some (circulating_tao dp * price))) \<and>
   (raw_data \<noteq> [] \<longrightarrow>
      (\<exists>df. process_data to_datetime iso_date clk fd dir raw_data True (Some prices) = Inr (df, dir) \<and>
            mset df = mset (map (process_entry to_datetime iso_date True (Some prices)) raw_data) \<and>
            length df = length raw_data)) \<and>
   (process_data to_datetime iso_date clk fd dir raw_data' include_usd price_data = Inr (df', dir') \<and>
    row \<in> set df' \<longrightarrow>
      (tao_price_usd row \<noteq> None \<and> total_market_cap_usd row \<noteq> None \<and>
       staked_market_cap_usd row \<noteq> None \<and> circulating_market_cap_usd row \<noteq> None) \<or>
      (tao_price_usd row = None \<and> total_market_cap_usd row = None \<and>
       staked_market_cap_usd row = None \<and> circulating_market_cap_usd row = None))"
proof (intro conjI impI)
  assume "dp = process_entry to_datetime iso_date True (Some prices) entry"
  then show "case get_price_for_date prices (iso_date (replace_Z (raw_timestamp entry))) of
         None \<Rightarrow>
           tao_price_usd dp = None \<and> total_market_cap_usd dp = None \<and>
           staked_market_cap_usd dp = None \<and> circulating_market_cap_usd dp = None
       | Some price \<Rightarrow>
           tao_price_usd dp = Some price \<and>
           total_market_cap_usd dp = Some (issued_tao dp * price) \<and>
           staked_market_cap_usd dp = Some (staked_tao dp * price) \<and>
           circulating_market_cap_usd dp = Some (circulating_tao dp * price)"
    using process_entry_usd [of to_datetime iso_date prices entry dp] by simp
next
  assume "raw_data \<noteq> []"
  then show "\<exists>df. process_data to_datetime iso_date clk fd dir raw_data True (Some prices) = Inr (df, dir) \<and>
            mset df = mset (map (process_entry to_datetime iso_date True (Some prices)) raw_data) \<and>
            length df = length raw_data"
    by (simp add: process_data_supplied)
next
  assume h: "process_data to_datetime iso_date clk fd dir raw_data' include_usd price_data =
      Inr (df', dir') \<and> row \<in> set df'"
  then obtain price_data' where
    "df' = sort_key timestamp
             (map (process_entry to_datetime iso_date include_usd price_data') raw_data')"
    using process_data_rows [of to_datetime iso_date clk fd dir raw_data' include_usd price_data
        df' dir'] by blast
  with h obtain entry' where "row = process_entry to_datetime iso_date include_usd price_data' entry'"
    by auto
  then show "(tao_price_usd row \<noteq> None \<and> total_market_cap_usd row \<noteq> None \<and>
       staked_market_cap_usd row \<noteq> None \<and> circulating_market_cap_usd row \<noteq> None) \<or>
      (tao_price_usd row = None \<and> total_market_cap_usd row = None \<and>
       staked_market_cap_usd row = None \<and> circulating_market_cap_usd row = None)"
    using process_entry_all_or_none [of to_datetime iso_date include_usd price_data' entry']
    by simp
qed

text \<open>
  The record of 2024-01-03 with 8 TAO issued, 6 staked: against the prices of 2024-01-01
  and 2024-01-05 it gets the price 110 and the caps 880, 660 and 220; against the empty
  price map it gets no USD field, and it is still a row of the result.
\<close>

theorem usd_fields_all_or_none_witness:
  "tao_price_usd (process_entry to_datetime_ex iso_date_ex True (Some prices_ex) entry_a) = Some 110 \<and>
   total_market_cap_usd (process_entry to_datetime_ex iso_date_ex True (Some prices_ex) entry_a) = Some 880 \<and>
   staked_market_cap_usd (process_entry to_datetime_ex iso_date_ex True (Some prices_ex) entry_a) = Some 660 \<and>
   circulating_market_cap_usd (process_entry to_datetime_ex iso_date_ex True (Some prices_ex) entry_a) = Some 220 \<and>
   tao_price_usd (process_entry to_datetime_ex iso_date_ex True (Some []) entry_a) = None \<and>
   total_market_cap_usd (process_entry to_datetime_ex iso_date_ex True (Some []) entry_a) = None \<and>
   staked_market_cap_usd (process_entry to_datetime_ex iso_date_ex True (Some []) entry_a) = None \<and>
   circulating_market_cap_usd (process_entry to_datetime_ex iso_date_ex True (Some []) entry_a) = None \<and>
   length (fst (projr (process_data to_datetime_ex iso_date_ex clock_ex feed_ok dir_snapshot
      [entry_a, entry_b] True (Some [])))) = 2 \<and>
   process_entry to_datetime_ex iso_date_ex True (Some prices_ex) entry_b
     \<in> set (fst (projr (process_data to_datetime_ex iso_date_ex clock_ex feed_ok dir_snapshot
          [entry_a, entry_b] True (Some prices_ex)))) \<and>
   tao_price_usd (process_entry to_datetime_ex iso_date_ex True (Some prices_ex) entry_b) \<noteq> None \<and>
   circulating_market_cap_usd (process_entry to_datetime_ex iso_date_ex True (Some prices_ex) entry_b)
     \<noteq> None"
proof -
  let ?dp = "process_entry to_datetime_ex iso_date_ex True (Some prices_ex) entry_a"
  let ?dq = "process_entry to_datetime_ex iso_date_ex True (Some []) entry_a"
  let ?db = "process_entry to_datetime_ex iso_date_ex True (Some prices_ex) entry_b"
  have u: "issued_tao ?dp = 8 \<and> staked_tao ?dp = 6 \<and> circulating_tao ?dp = 2"
    by (simp add: process_entry_units entry_a_def)
  from usd_fields_all_or_none [of ?dp to_datetime_ex iso_date_ex prices_ex entry_a,
      THEN conjunct1, THEN mp, OF refl]
  have a: "tao_price_usd ?dp = Some 110 \<and> total_market_cap_usd ?dp = Some 880 \<and>
      staked_market_cap_usd ?dp = Some 660 \<and> circulating_market_cap_usd ?dp = Some 220"
    by (simp add: price_for_entry_a u)
  from usd_fields_all_or_none [of ?dq to_datetime_ex iso_date_ex "[]" entry_a,
      THEN conjunct1, THEN mp, OF refl]
  have b: "tao_price_usd ?dq = None \<and> total_market_cap_usd ?dq = None \<and>
      staked_market_cap_usd ?dq = None \<and> circulating_market_cap_usd ?dq = None"
    by (simp add: price_for_entry_a_empty)
  have ne: "[entry_a, entry_b] \<noteq> []" by simp
  from usd_fields_all_or_none [of _ to_datetime_ex iso_date_ex "[]" _ "[entry_a, entry_b]"
      clock_ex feed_ok dir_snapshot, THEN conjunct2, THEN conjunct1, THEN mp, OF ne]
  have c: "length (fst (projr (process_data to_datetime_ex iso_date_ex clock_ex feed_ok
      dir_snapshot [entry_a, entry_b] True (Some [])))) = 2"
    by auto
  have m: "?db \<in> set (fst (projr (process_data to_datetime_ex iso_date_ex clock_ex feed_ok
      dir_snapshot [entry_a, entry_b] True (Some prices_ex))))"
    by (simp add: process_data_two_entries)
  have t: "tao_price_usd ?db \<noteq> None"
    by (simp add: process_entry_def lookup_tao_price_usd_eq get_price_for_date_def prices_ex_def
        dict_contains_def dict_get_def iso_date_ex_def replace_Z_def entry_b_def)
  have h: "process_data to_datetime_ex iso_date_ex clock_ex feed_ok dir_snapshot
      [entry_a, entry_b] True (Some prices_ex) = Inr ([?db, ?dp], dir_snapshot) \<and>
      ?db \<in> set [?db, ?dp]"
    by (simp add: process_data_two_entries)
  from usd_fields_all_or_none [of _ to_datetime_ex iso_date_ex _ _ _ clock_ex feed_ok
      dir_snapshot "[entry_a, entry_b]" True "Some prices_ex" "[?db, ?dp]" dir_snapshot ?db,
      THEN conjunct2, THEN conjunct2, THEN mp, OF h] t
  have d: "circulating_market_cap_usd ?db \<noteq> None"
    by blast
  from a b c m t d show ?thesis by blast
qed

text \<open>
  Claim C8. For every record with \<open>issued > 0\<close> that is valid, that is, whose staked
  amount is a part of the issued amount (\<open>0 \<le> staked \<le> issued\<close>), the row has
  \<open>staked_percentage\<close> in \<open>[0, 100]\<close>, computed as \<open>100 * staked / issued\<close> from the
  raw integers, and \<open>circulating_tao + staked_tao = issued_tao\<close>. Floats are reals
  here, so the equation is exact; on IEEE doubles it holds up to rounding. The source
  does not check that \<open>staked \<le> issued\<close>: outside that range the percentage leaves
  \<open>[0, 100]\<close> (\<open>staked_above_issued_percentage\<close>).
\<close>

theorem staked_percentage_range:
  "0 < issued entry \<and> 0 \<le> staked entry \<and> staked entry \<le> issued entry \<and>
   dp = process_entry to_datetime iso_date include_usd price_data entry \<longrightarrow>
     0 \<le> staked_percentage dp \<and> staked_percentage dp \<le> 100 \<and>
     staked_percentage dp = 100 * real_of_int (staked entry) / real_of_int (issued entry) \<and>
     circulating_tao dp + staked_tao dp = issued_tao dp"
proof
  assume h: "0 < issued entry \<and> 0 \<le> staked entry \<and> staked entry \<le> issued entry \<and>
   dp = process_entry to_datetime iso_date include_usd price_data entry"
  then have pos: "0 < real_of_int (issued entry)" and
    nn: "0 \<le> real_of_int (staked entry)" and
    le: "real_of_int (staked entry) \<le> real_of_int (issued entry)" by simp_all
  have p: "staked_percentage dp = real_of_int (staked entry) / real_of_int (issued entry) * 100"
    using h process_entry_units [of to_datetime iso_date include_usd price_data entry] by simp
  let ?x = "real_of_int (staked entry) / real_of_int (issued entry)"
  have q: "?x \<le> 1"
    using pos le by (simp add: divide_le_eq_1)
  have q0: "0 \<le> ?x"
    using pos nn by simp
  from percent_bounds [OF q0 q] have b0: "0 \<le> ?x * 100" and b1: "?x * 100 \<le> 100"
    by blast+
  have eq: "?x * 100 = 100 * real_of_int (staked entry) / real_of_int (issued entry)"
    by simp
  have c: "circulating_tao dp + staked_tao dp = issued_tao dp"
    using h process_entry_units [of to_datetime iso_date include_usd price_data entry] by simp
  show "0 \<le> staked_percentage dp \<and> staked_percentage dp \<le> 100 \<and>
     staked_percentage dp = 100 * real_of_int (staked entry) / real_of_int (issued entry) \<and>
     circulating_tao dp + staked_tao dp = issued_tao dp"
  proof (intro conjI)
    show "0 \<le> staked_percentage dp" by (simp only: p b0)
    show "staked_percentage dp \<le> 100" by (simp only: p b1)
    show "staked_percentage dp = 100 * real_of_int (staked entry) / real_of_int (issued entry)"
      by (simp only: p eq)
    show "circulating_tao dp + staked_tao dp = issued_tao dp" by (rule c)
  qed
qed

text \<open>The record with 8 TAO issued and 6 TAO staked has 75 percent staked.\<close>

theorem staked_percentage_range_witness:
  "0 < issued entry_a \<and> 0 \<le> staked entry_a \<and> staked entry_a \<le> issued entry_a \<and>
   staked_percentage (process_entry to_datetime_ex iso_date_ex True (Some prices_ex) entry_a) = 75 \<and>
   circulating_tao (process_entry to_datetime_ex iso_date_ex True (Some prices_ex) entry_a) +
     staked_tao (process_entry to_datetime_ex iso_date_ex True (Some prices_ex) entry_a) =
     issued_tao (process_entry to_datetime_ex iso_date_ex True (Some prices_ex) entry_a)"
proof -
  have h: "0 < issued entry_a \<and> 0 \<le> staked entry_a \<and> staked entry_a \<le> issued entry_a \<and>
      process_entry to_datetime_ex iso_date_ex True (Some prices_ex) entry_a =
      process_entry to_datetime_ex iso_date_ex True (Some prices_ex) entry_a"
    by (simp add: entry_a_def)
  from staked_percentage_range [of entry_a _ to_datetime_ex iso_date_ex True "Some prices_ex",
      THEN mp, OF h] h
  show ?thesis by (simp add: entry_a_def)
qed

text \<open>
  Claim C9, as stated: the rows are sorted strictly ascending by timestamp for every
  input. \<^verbatim>\<open>process_data\<close> only sorts; it removes no row. Two records with the same
  timestamp give two rows with the same timestamp.
\<close>

theorem equal_timestamps_counterexample:
  "process_data to_datetime_ex iso_date_ex clock_ex feed_ok dir_snapshot [entry_a, entry_a]
      True (Some prices_ex) =
     Inr ([process_entry to_datetime_ex iso_date_ex True (Some prices_ex) entry_a,
           process_entry to_datetime_ex iso_date_ex True (Some prices_ex) entry_a], dir_snapshot) \<and>
   \<not> sorted_wrt (<) (map timestamp
     [process_entry to_datetime_ex iso_date_ex True (Some prices_ex) entry_a,
      process_entry to_datetime_ex iso_date_ex True (Some prices_ex) entry_a])"
  by (simp add: process_data_supplied process_entry_timestamp)

text \<open>
  Claim C9, amended. Whenever \<^verbatim>\<open>process_data\<close> returns, and it returns for every
  non-empty list of records, the rows are sorted ascending by timestamp, there is one
  row per record, and the timestamps of the rows are those of the records whatever their
  order of arrival. The order is strict exactly when the timestamps of the records are
  pairwise distinct. The same holds for \<^verbatim>\<open>process_data\<close> of
  \<^verbatim>\<open>tao_stats_visualizer.py\<close>. (On the empty list, \<^verbatim>\<open>sort_values\<close> raises
  \<^verbatim>\<open>KeyError\<close>: lemma \<open>process_data_cases\<close>.)
\<close>

theorem process_data_sorted:
  "(process_data to_datetime iso_date clk fd dir raw_data include_usd price_data = Inr (df, dir') \<longrightarrow>
      sorted (map timestamp df) \<and> length df = length raw_data \<and>
      mset (map timestamp df) = mset (map (\<lambda>entry. to_datetime (raw_timestamp entry)) raw_data) \<and>
      (sorted_wrt (<) (map timestamp df) \<longleftrightarrow>
         distinct (map (\<lambda>entry. to_datetime (raw_timestamp entry)) raw_data))) \<and>
   (raw_data \<noteq> [] \<longrightarrow>
      (\<exists>df dir'. process_data to_datetime iso_date clk fd dir raw_data include_usd price_data =
                   Inr (df, dir'))) \<and>
   (process_data_plain to_datetime raw_data = Inr tbl \<longrightarrow>
      sorted (map p_timestamp tbl) \<and> length tbl = length raw_data \<and>
      mset (map p_timestamp tbl) = mset (map (\<lambda>entry. to_datetime (raw_timestamp entry)) raw_data) \<and>
      (sorted_wrt (<) (map p_timestamp tbl) \<longleftrightarrow>
         distinct (map (\<lambda>entry. to_datetime (raw_timestamp entry)) raw_data))) \<and>
   (raw_data \<noteq> [] \<longrightarrow> (\<exists>tbl. process_data_plain to_datetime raw_data = Inr tbl))"
proof (intro conjI impI)
  assume "process_data to_datetime iso_date clk fd dir raw_data include_usd price_data = Inr (df, dir')"
  from process_data_rows [OF this] obtain price_data' where
    df: "df = sort_key timestamp
              (map (process_entry to_datetime iso_date include_usd price_data') raw_data)"
    by blast
  let ?xs = "map (process_entry to_datetime iso_date include_usd price_data') raw_data"
  note s = sorted_rows [of timestamp ?xs, unfolded process_entry_timestamps]
  from s show "sorted (map timestamp df)" by (simp add: df)
  from s show "length df = length raw_data" by (simp add: df)
  from s show "mset (map timestamp df) =
      mset (map (\<lambda>entry. to_datetime (raw_timestamp entry)) raw_data)"
    unfolding df by blast
  from s show "sorted_wrt (<) (map timestamp df) \<longleftrightarrow>
      distinct (map (\<lambda>entry. to_datetime (raw_timestamp entry)) raw_data)"
    unfolding df by blast
next
  assume "raw_data \<noteq> []"
  then show "\<exists>df dir'. process_data to_datetime iso_date clk fd dir raw_data include_usd price_data =
                   Inr (df, dir')"
    using process_data_cases [of raw_data to_datetime iso_date clk fd dir include_usd price_data]
    by blast
next
  assume "process_data_plain to_datetime raw_data = Inr tbl"
  then have tbl: "tbl = sort_key p_timestamp (map (process_entry_plain to_datetime) raw_data)"
    by (auto simp: process_data_plain_def Let_def split: if_splits)
  let ?xs = "map (process_entry_plain to_datetime) raw_data"
  note s = sorted_rows [of p_timestamp ?xs, unfolded process_entry_plain_timestamps]
  from s show "sorted (map p_timestamp tbl)" by (simp add: tbl)
  from s show "length tbl = length raw_data" by (simp add: tbl)
  from s show "mset (map p_timestamp tbl) =
      mset (map (\<lambda>entry. to_datetime (raw_timestamp entry)) raw_data)"
    unfolding tbl by blast
  from s show "sorted_wrt (<) (map p_timestamp tbl) \<longleftrightarrow>
      distinct (map (\<lambda>entry. to_datetime (raw_timestamp entry)) raw_data)"
    unfolding tbl by blast
next
  assume "raw_data \<noteq> []"
  then show "\<exists>tbl. process_data_plain to_datetime raw_data = Inr tbl"
    by (simp add: process_data_plain_def)
qed

text \<open>Two records that arrive in descending order of time come out ascending.\<close>

theorem process_data_sorted_witness:
  "process_data to_datetime_ex iso_date_ex clock_ex feed_ok dir_snapshot [entry_a, entry_b]
      True (Some prices_ex) =
     Inr ([process_entry to_datetime_ex iso_date_ex True (Some prices_ex) entry_b,
           process_entry to_datetime_ex iso_date_ex True (Some prices_ex) entry_a], dir_snapshot) \<and>
   distinct (map (\<lambda>entry. to_datetime_ex (raw_timestamp entry)) [entry_a, entry_b]) \<and>
   sorted_wrt (<) (map timestamp
     [process_entry to_datetime_ex iso_date_ex True (Some prices_ex) entry_b,
      process_entry to_datetime_ex iso_date_ex True (Some prices_ex) entry_a]) \<and>
   process_data_plain to_datetime_ex [entry_a, entry_b] =
     Inr [process_entry_plain to_datetime_ex entry_b, process_entry_plain to_datetime_ex entry_a] \<and>
   sorted (map p_timestamp
     [process_entry_plain to_datetime_ex entry_b, process_entry_plain to_datetime_ex entry_a]) \<and>
   process_data to_datetime_ex iso_date_ex clock_ex feed_ok dir_snapshot [entry_a, entry_b]
      False None \<noteq> Inl KeyError \<and>
   process_data_plain to_datetime_ex [entry_a, entry_b] \<noteq> Inl KeyError"
proof -
  have d: "distinct (map (\<lambda>entry. to_datetime_ex (raw_timestamp entry)) [entry_a, entry_b])"
    by (simp add: to_datetime_ex_def entry_a_def entry_b_def)
  have p: "process_data_plain to_datetime_ex [entry_a, entry_b] =
     Inr [process_entry_plain to_datetime_ex entry_b, process_entry_plain to_datetime_ex entry_a]"
    by (simp add: process_data_plain_def process_entry_plain_def to_datetime_ex_def
        entry_a_def entry_b_def)
  have ne: "[entry_a, entry_b] \<noteq> []" by simp
  note t = process_data_sorted [of to_datetime_ex iso_date_ex clock_ex feed_ok dir_snapshot
      "[entry_a, entry_b]" True "Some prices_ex"
      "[process_entry to_datetime_ex iso_date_ex True (Some prices_ex) entry_b,
        process_entry to_datetime_ex iso_date_ex True (Some prices_ex) entry_a]" dir_snapshot
      "[process_entry_plain to_datetime_ex entry_b, process_entry_plain to_datetime_ex entry_a]"]
  note t' = process_data_sorted [of to_datetime_ex iso_date_ex clock_ex feed_ok dir_snapshot
      "[entry_a, entry_b]" False None]
  from t [THEN conjunct1, THEN mp, OF process_data_two_entries] d
  have a: "sorted_wrt (<) (map timestamp
     [process_entry to_datetime_ex iso_date_ex True (Some prices_ex) entry_b,
      process_entry to_datetime_ex iso_date_ex True (Some prices_ex) entry_a])"
    by blast
  from t [THEN conjunct2, THEN conjunct2, THEN conjunct1, THEN mp, OF p]
  have b: "sorted (map p_timestamp
     [process_entry_plain to_datetime_ex entry_b, process_entry_plain to_datetime_ex entry_a])"
    by blast
  from t' [THEN conjunct2, THEN conjunct1, THEN mp, OF ne]
  have c: "process_data to_datetime_ex iso_date_ex clock_ex feed_ok dir_snapshot
      [entry_a, entry_b] False None \<noteq> Inl KeyError"
    by auto
  from t [THEN conjunct2, THEN conjunct2, THEN conjunct2, THEN mp, OF ne]
  have e: "process_data_plain to_datetime_ex [entry_a, entry_b] \<noteq> Inl KeyError"
    by auto
  from process_data_two_entries d a p b c e show ?thesis by blast
qed

end
